theory Spec2Isabelle
  imports Complex_Main
begin

section \<open>Instrument analyzer: the streaming pitch and volume core\<close>

text \<open>
  The repository holds three variants of one program: \<^verbatim>\<open>instrument_analyzer_gui_clean.pyw\<close>
  (version 1.0.0), \<^verbatim>\<open>instrument_analyzer_gui_backup.pyw\<close> (version 0.2.1) and the first
  version 0.1.0 (\<^verbatim>\<open>unnamed/part_001\<close>). Definitions without a prefix embed the clean
  variant; those prefixed \<open>backup_\<close> embed the backup variant, those prefixed \<open>v01_\<close>
  the first version. The value of a float is a \<open>real\<close> (infinities are not modelled); a
  value that may be NaN is a \<open>real option\<close> with \<open>None\<close> for NaN. The rounded operations
  that numpy performs on a block of samples are a parameter of the model (\<open>float_ops\<close>).
\<close>

subsection \<open>Configuration constants\<close>

definition CHUNK :: nat where
  "CHUNK = 1024"

definition FRAME_LENGTH :: nat where
  "FRAME_LENGTH = CHUNK * 2"

definition HOP_LENGTH :: nat where
  "HOP_LENGTH = CHUNK"

text \<open>\<^verbatim>\<open>GAIN_MULTIPLIER = 10.0\<close> in the clean variant.\<close>

definition GAIN_MULTIPLIER :: real where
  "GAIN_MULTIPLIER = 10"

text \<open>The argument of \<^verbatim>\<open>deque(maxlen=CHUNK * 10)\<close>.\<close>

definition BUFFER_MAXLEN :: nat where
  "BUFFER_MAXLEN = CHUNK * 10"

subsection \<open>The bounded deque\<close>

text \<open>
  \<^verbatim>\<open>collections.deque\<close> with a \<^verbatim>\<open>maxlen\<close>, as a list whose head is the left (oldest)
  end. \<^verbatim>\<open>append\<close> adds on the right and, when the length then exceeds \<^verbatim>\<open>maxlen\<close>,
  pops one item on the left; \<^verbatim>\<open>extend\<close> appends the items of its argument one by one.
\<close>

definition deque_append :: "nat \<Rightarrow> 'a list \<Rightarrow> 'a \<Rightarrow> 'a list" where
  "deque_append maxlen d x =
     (let d' = d @ [x] in if maxlen < length d' then tl d' else d')"

fun deque_extend :: "nat \<Rightarrow> 'a list \<Rightarrow> 'a list \<Rightarrow> 'a list" where
  "deque_extend maxlen d [] = d"
| "deque_extend maxlen d (x # xs) = deque_extend maxlen (deque_append maxlen d x) xs"

text \<open>
  The loop \<^verbatim>\<open>for _ in range(n): if buf: buf.popleft()\<close> of \<^verbatim>\<open>_audio_loop\<close>.
\<close>

fun popleft_n :: "nat \<Rightarrow> 'a list \<Rightarrow> 'a list" where
  "popleft_n 0 d = d"
| "popleft_n (Suc n) d = popleft_n n (if d \<noteq> [] then tl d else d)"

subsection \<open>Python and numpy primitives\<close>

datatype py_exception = ValueError | IndexError | OSError | JSONDecodeError | PitchError

text \<open>A sample is a float; \<open>None\<close> stands for NaN.\<close>

type_synonym sample = "real option"

text \<open>\<^verbatim>\<open>a[~np.isnan(a)]\<close>: the entries that are not NaN, in order.\<close>

definition not_nan :: "real option list \<Rightarrow> real list" where
  "not_nan a = List.map_filter (\<lambda>x. x) a"

text \<open>One entry of the mask \<^verbatim>\<open>voiced_probs > 0.5\<close>; a comparison with NaN is false.\<close>

definition gt_half :: "real option \<Rightarrow> bool" where
  "gt_half p = (case p of None \<Rightarrow> False | Some v \<Rightarrow> 1 / 2 < v)"

text \<open>
  \<^verbatim>\<open>a[mask]\<close> with a boolean mask: numpy raises IndexError when the mask's length is not
  the array's.
\<close>

definition mask_index :: "'a list \<Rightarrow> bool list \<Rightarrow> py_exception + 'a list" where
  "mask_index a m =
     (if length m \<noteq> length a then Inl IndexError
      else Inr (map fst (filter snd (zip a m))))"

text \<open>\<^verbatim>\<open>np.mean\<close> and \<^verbatim>\<open>np.median\<close> of an array without NaN; NaN on the empty array.\<close>

definition np_mean :: "real list \<Rightarrow> real option" where
  "np_mean xs = (if xs = [] then None else Some (sum_list xs / real (length xs)))"

definition np_median :: "real list \<Rightarrow> real option" where
  "np_median xs =
     (let s = sort xs; n = length s in
      if n = 0 then None
      else if odd n then Some (s ! (n div 2))
      else Some ((s ! (n div 2 - 1) + s ! (n div 2)) / 2))"

text \<open>
  The floating-point operations that numpy performs on a block of samples. What they
  return depends on the precision (float32 for the arrays of the stream) and on the order
  in which a sum is taken, so they are a parameter: each field is the rounded result of
  one operation on values that are not NaN. \<open>array_times\<close> is one entry of
  \<^verbatim>\<open>audio_data * GAIN_MULTIPLIER\<close>, \<open>array_square\<close> one entry of \<^verbatim>\<open>audio_data ** 2\<close>,
  \<open>array_mean\<close> is \<^verbatim>\<open>np.mean\<close> of a non-empty array, \<open>scalar_sqrt\<close> is \<^verbatim>\<open>np.sqrt\<close>, and
  \<open>scalar_times\<close> is the product of a numpy scalar and a Python number
  (\<^verbatim>\<open>volume * 100\<close>, \<^verbatim>\<open>rms * 200\<close>).
\<close>

record float_ops =
  array_times :: "real \<Rightarrow> real \<Rightarrow> real"
  array_square :: "real \<Rightarrow> real"
  array_mean :: "real list \<Rightarrow> real"
  scalar_sqrt :: "real \<Rightarrow> real"
  scalar_times :: "real \<Rightarrow> real \<Rightarrow> real"

text \<open>
  The operations without rounding. Floating-point arithmetic returns an exact result
  whenever it is representable, so these are numpy's operations on every input whose
  intermediate results are all representable (small integers and binary fractions).
\<close>

definition exact_ops :: float_ops where
  "exact_ops =
     \<lparr>array_times = (\<lambda>x y. x * y), array_square = (\<lambda>x. x ^ 2),
      array_mean = (\<lambda>xs. sum_list xs / real (length xs)),
      scalar_sqrt = sqrt, scalar_times = (\<lambda>x y. x * y)\<rparr>"

text \<open>
  \<^verbatim>\<open>np.sqrt(np.mean(audio_data ** 2))\<close>: NaN when the block is empty or holds a NaN.
\<close>

definition rms :: "float_ops \<Rightarrow> sample list \<Rightarrow> real option" where
  "rms fl audio_data =
     (case those (map (map_option (array_square fl)) audio_data) of
        None \<Rightarrow> None
      | Some sq \<Rightarrow> if sq = [] then None else Some (scalar_sqrt fl (array_mean fl sq)))"

text \<open>\<^verbatim>\<open>int(x)\<close> on a float: truncation towards zero, ValueError on NaN.\<close>

definition py_int :: "real option \<Rightarrow> py_exception + int" where
  "py_int x =
     (case x of
        None \<Rightarrow> Inl ValueError
      | Some v \<Rightarrow> Inr (if 0 \<le> v then \<lfloor>v\<rfloor> else \<lceil>v\<rceil>))"

subsection \<open>The note table\<close>

text \<open>
  \<^verbatim>\<open>note_data["note_frequencies"]\<close>: a dict from note key to its entry, as an association
  list in the dict's iteration order. (The backup's \<^verbatim>\<open>note_mapping\<close> is never read.)
\<close>

record note_info =
  frequency :: real
  western :: string
  japanese :: string

type_synonym note_table = "(string \<times> note_info) list"

text \<open>
  The table the clean variant returns when the file cannot be loaded; the Japanese names
  are the UTF-8 bytes of the katakana in the source.
\<close>

definition default_note_frequencies :: note_table where
  "default_note_frequencies =
     [(''C4'', \<lparr>frequency = 26163 / 100, western = ''C4'',
         japanese = [CHR 0xE3, CHR 0x83, CHR 0x89]\<rparr>),
      (''D4'', \<lparr>frequency = 29366 / 100, western = ''D4'',
         japanese = [CHR 0xE3, CHR 0x83, CHR 0xAC]\<rparr>),
      (''E4'', \<lparr>frequency = 32963 / 100, western = ''E4'',
         japanese = [CHR 0xE3, CHR 0x83, CHR 0x9F]\<rparr>),
      (''F4'', \<lparr>frequency = 34923 / 100, western = ''F4'',
         japanese = [CHR 0xE3, CHR 0x83, CHR 0x95, CHR 0xE3, CHR 0x82, CHR 0xA1]\<rparr>),
      (''G4'', \<lparr>frequency = 392, western = ''G4'',
         japanese = [CHR 0xE3, CHR 0x82, CHR 0xBD]\<rparr>),
      (''A4'', \<lparr>frequency = 440, western = ''A4'',
         japanese = [CHR 0xE3, CHR 0x83, CHR 0xA9]\<rparr>),
      (''B4'', \<lparr>frequency = 49388 / 100, western = ''B4'',
         japanese = [CHR 0xE3, CHR 0x82, CHR 0xB7]\<rparr>)]"

text \<open>
  \<^verbatim>\<open>load_note_frequencies\<close>: the argument is the outcome of opening and parsing
  \<^verbatim>\<open>note_frequencies.json\<close> (\<open>Inl\<close> the exception raised). The clean variant falls back
  to the table above, the backup variant to \<^verbatim>\<open>{"note_frequencies": {}, "note_mapping": {}}\<close>.
\<close>

definition load_note_frequencies :: "py_exception + note_table \<Rightarrow> note_table" where
  "load_note_frequencies loaded =
     (case loaded of Inr table \<Rightarrow> table | Inl e \<Rightarrow> default_note_frequencies)"

definition backup_load_note_frequencies :: "py_exception + note_table \<Rightarrow> note_table" where
  "backup_load_note_frequencies loaded =
     (case loaded of Inr table \<Rightarrow> table | Inl e \<Rightarrow> [])"

text \<open>
  \<^verbatim>\<open>frequency_to_note\<close> (the same text in both variants). The loop state is
  \<^verbatim>\<open>(min_diff, closest_note, closest_japanese, closest_freq)\<close>; \<^verbatim>\<open>min_diff\<close> starts at
  \<^verbatim>\<open>float('inf')\<close>, here \<open>None\<close>.
\<close>

type_synonym scan_state = "real option \<times> string \<times> string \<times> real"

fun note_loop :: "real \<Rightarrow> note_table \<Rightarrow> scan_state \<Rightarrow> scan_state" where
  "note_loop f [] st = st"
| "note_loop f ((note_key, note_info) # rest) (min_diff, closest_note, closest_japanese, closest_freq) =
     (let diff = \<bar>frequency note_info - f\<bar> in
      if (case min_diff of None \<Rightarrow> True | Some m \<Rightarrow> diff < m)
      then note_loop f rest (Some diff, western note_info, japanese note_info, frequency note_info)
      else note_loop f rest (min_diff, closest_note, closest_japanese, closest_freq))"

definition frequency_to_note :: "real \<Rightarrow> note_table \<Rightarrow> string \<times> string \<times> real" where
  "frequency_to_note f table =
     (if f \<le> 0 then (''N/A'', ''N/A'', 0)
      else (case note_loop f table (None, ''N/A'', ''N/A'', 0) of
              (min_diff, closest_note, closest_japanese, closest_freq) \<Rightarrow>
                (closest_note, closest_japanese, closest_freq)))"

subsection \<open>The analyzer object\<close>

text \<open>
  The fields of \<^verbatim>\<open>InstrumentAnalyzerGUI\<close> that the analysis reads and writes. The widgets,
  the stream handle and the graph history (time stamps, volume and frequency series) are
  left out: no analysed statement reads them.
\<close>

record analyzer =
  is_running :: bool
  current_f0 :: real
  current_note :: string
  current_japanese_note :: string
  current_volume :: int
  note_confidence :: real
  note_data :: note_table
  audio_buffer :: "sample list"

text \<open>\<^verbatim>\<open>__init__\<close>, given the table \<^verbatim>\<open>load_note_frequencies()\<close> returned.\<close>

definition init :: "note_table \<Rightarrow> analyzer" where
  "init table =
     \<lparr>is_running = False, current_f0 = 0, current_note = ''N/A'',
      current_japanese_note = ''N/A'', current_volume = 0, note_confidence = 0,
      note_data = table, audio_buffer = []\<rparr>"

text \<open>The four assignments that every "nothing detected" branch and the handler make.\<close>

definition unvoiced :: "analyzer \<Rightarrow> analyzer" where
  "unvoiced s =
     s\<lparr>current_f0 := 0, current_note := ''N/A'', current_japanese_note := ''N/A'',
       note_confidence := 0\<rparr>"

subsection \<open>Pitch analysis of one segment\<close>

text \<open>
  \<^verbatim>\<open>librosa.pyin\<close> is external: it either raises or returns the arrays \<^verbatim>\<open>f0\<close> and
  \<^verbatim>\<open>voiced_probs\<close> (\<^verbatim>\<open>voiced_flag\<close> is not read). The analysis takes it as a parameter
  of type \<open>sample list \<Rightarrow> pyin_result\<close>. The test \<^verbatim>\<open>hasattr(voiced_probs, '__len__')\<close>
  holds of every array and is left out.
\<close>

datatype pyin_result = Raised | Returned "real option list" "real option list"

text \<open>
  \<^verbatim>\<open>confidence = max(0, 100 - (freq_diff / closest_freq * 100 * K))\<close> followed by
  \<^verbatim>\<open>min(100, confidence)\<close>; \<open>K\<close> is 10 in the clean variant and 16.7 in the backup.
\<close>

definition confidence :: "real \<Rightarrow> real \<Rightarrow> real \<Rightarrow> real" where
  "confidence K detected_f0 closest_freq =
     (let freq_diff = \<bar>detected_f0 - closest_freq\<bar>;
          c = max 0 (100 - (freq_diff / closest_freq * 100 * K))
      in min 100 c)"

text \<open>
  The assignments of the in-band branch: \<^verbatim>\<open>current_f0\<close>, the note found by
  \<^verbatim>\<open>frequency_to_note\<close>, and the confidence under the guard \<^verbatim>\<open>closest_freq > 0\<close>.
\<close>

definition publish :: "real \<Rightarrow> real \<Rightarrow> analyzer \<Rightarrow> analyzer" where
  "publish K detected_f0 s =
     (case frequency_to_note detected_f0 (note_data s) of
        (western_note, japanese_note, closest_freq) \<Rightarrow>
          s\<lparr>current_f0 := detected_f0, current_note := western_note,
            current_japanese_note := japanese_note,
            note_confidence :=
              (if 0 < closest_freq then confidence K detected_f0 closest_freq else 0)\<rparr>)"

text \<open>The body of the \<^verbatim>\<open>try\<close> of the clean \<^verbatim>\<open>_analyze_audio_segment\<close>.\<close>

definition analyze_body :: "pyin_result \<Rightarrow> analyzer \<Rightarrow> py_exception + analyzer" where
  "analyze_body r s =
     (case r of
        Raised \<Rightarrow> Inl PitchError
      | Returned f0 voiced_probs \<Rightarrow>
          let valid_f0 = not_nan f0 in
          if 0 < length valid_f0 then
            (case mask_index f0 (map gt_half voiced_probs) of
               Inl e \<Rightarrow> Inl e
             | Inr confident_f0 \<Rightarrow>
                 let confident_valid = not_nan confident_f0 in
                 if 0 < length confident_valid then
                   (case np_median confident_valid of
                      None \<Rightarrow> Inr (unvoiced s)
                    | Some detected_f0 \<Rightarrow>
                        if 75 \<le> detected_f0 \<and> detected_f0 \<le> 1200
                        then Inr (publish 10 detected_f0 s)
                        else Inr (unvoiced s))
                 else Inr (unvoiced s))
          else Inr (unvoiced s))"

text \<open>
  \<^verbatim>\<open>_analyze_audio_segment\<close>: the \<^verbatim>\<open>except Exception\<close> handler logs and makes the four
  "unvoiced" assignments.
\<close>

definition analyze_audio_segment ::
  "(sample list \<Rightarrow> pyin_result) \<Rightarrow> sample list \<Rightarrow> analyzer \<Rightarrow> py_exception + analyzer" where
  "analyze_audio_segment pyin segment s =
     (case analyze_body (pyin segment) s of
        Inl e \<Rightarrow> Inr (unvoiced s)
      | Inr s' \<Rightarrow> Inr s')"

text \<open>
  The backup variant: the mean of all valid estimates, replaced by the mean of the
  confident ones when there are any.
\<close>

definition backup_avg :: "real option list \<Rightarrow> real option list \<Rightarrow> py_exception + real option" where
  "backup_avg f0 voiced_probs =
     (let valid = not_nan f0; avg = np_mean valid in
      if 0 < length voiced_probs then
        (case mask_index f0 (map gt_half voiced_probs) of
           Inl e \<Rightarrow> Inl e
         | Inr confident_f0 \<Rightarrow>
             if 0 < length confident_f0 then
               (let confident_valid = not_nan confident_f0 in
                if 0 < length confident_valid then Inr (np_mean confident_valid)
                else Inr avg)
             else Inr avg)
      else Inr avg)"

definition backup_analyze_body :: "pyin_result \<Rightarrow> analyzer \<Rightarrow> py_exception + analyzer" where
  "backup_analyze_body r s =
     (case r of
        Raised \<Rightarrow> Inl PitchError
      | Returned f0 voiced_probs \<Rightarrow>
          let valid = not_nan f0 in
          if 0 < length valid then
            (case backup_avg f0 voiced_probs of
               Inl e \<Rightarrow> Inl e
             | Inr None \<Rightarrow> Inr (unvoiced s)
             | Inr (Some avg) \<Rightarrow>
                 if 75 \<le> avg \<and> avg \<le> 1200
                 then Inr (publish (167 / 10) avg s)
                 else Inr (unvoiced s))
          else Inr (unvoiced s))"

definition backup_analyze_audio_segment ::
  "(sample list \<Rightarrow> pyin_result) \<Rightarrow> sample list \<Rightarrow> analyzer \<Rightarrow> py_exception + analyzer" where
  "backup_analyze_audio_segment pyin segment s =
     (case backup_analyze_body (pyin segment) s of
        Inl e \<Rightarrow> Inr (unvoiced s)
      | Inr s' \<Rightarrow> Inr s')"

subsection \<open>The producer: the stream callback\<close>

text \<open>\<^verbatim>\<open>audio_data * GAIN_MULTIPLIER\<close>: the gain applied to a block (NaN stays NaN).\<close>

definition gained :: "float_ops \<Rightarrow> sample list \<Rightarrow> sample list" where
  "gained fl indata = map (map_option (\<lambda>x. array_times fl x GAIN_MULTIPLIER)) indata"

text \<open>
  \<^verbatim>\<open>audio_callback\<close> of the clean variant on one block of mono samples. An exception
  (only \<^verbatim>\<open>int\<close> of NaN can raise here) is caught and logged after the buffer was extended,
  and leaves the volume as it was.
\<close>

definition audio_callback :: "float_ops \<Rightarrow> sample list \<Rightarrow> analyzer \<Rightarrow> analyzer" where
  "audio_callback fl indata s =
     (let audio_data = gained fl indata;
          s1 = s\<lparr>audio_buffer := deque_extend BUFFER_MAXLEN (audio_buffer s) audio_data\<rparr>;
          volume = rms fl audio_data
      in case py_int (map_option (\<lambda>v. scalar_times fl v 100) volume) of
           Inl e \<Rightarrow> s1
         | Inr n \<Rightarrow> s1\<lparr>current_volume := min 100 n\<rparr>)"

text \<open>
  Version 0.1.0 computes the volume in its read loop:
  \<^verbatim>\<open>rms = np.sqrt(np.mean(audio_data**2)); current_volume = int(min(rms * 200, 100))\<close>.
  Python's \<^verbatim>\<open>min(a, b)\<close> is \<open>b\<close> when \<open>b < a\<close> and \<open>a\<close> otherwise.
\<close>

definition v01_current_volume :: "float_ops \<Rightarrow> sample list \<Rightarrow> py_exception + int" where
  "v01_current_volume fl audio_data =
     py_int (map_option
       (\<lambda>r. if 100 < scalar_times fl r 200 then 100 else scalar_times fl r 200)
       (rms fl audio_data))"

subsection \<open>The consumer: the analysis loop\<close>

text \<open>
  One pass through the body of the \<^verbatim>\<open>while\<close> of \<^verbatim>\<open>_audio_loop\<close>, taken as one atomic
  step. The first component is the segment handed to the analysis, if any. The loop's own
  handler logs an exception and goes on with the object as it is.
\<close>

definition audio_loop_iteration ::
  "(sample list \<Rightarrow> pyin_result) \<Rightarrow> analyzer \<Rightarrow> sample list option \<times> analyzer" where
  "audio_loop_iteration pyin s =
     (if FRAME_LENGTH \<le> length (audio_buffer s) then
        (let segment = take FRAME_LENGTH (audio_buffer s);
             s1 = s\<lparr>audio_buffer :=
                    popleft_n (min (length (audio_buffer s)) CHUNK) (audio_buffer s)\<rparr>
         in (Some segment,
             case analyze_audio_segment pyin segment s1 of Inr s2 \<Rightarrow> s2 | Inl e \<Rightarrow> s1))
      else (None, s))"

text \<open>
  The backup variant takes \<^verbatim>\<open>target_buffer_size = CHUNK * 2\<close> samples and pops as many.
\<close>

definition backup_audio_loop_iteration ::
  "(sample list \<Rightarrow> pyin_result) \<Rightarrow> analyzer \<Rightarrow> sample list option \<times> analyzer" where
  "backup_audio_loop_iteration pyin s =
     (let target_buffer_size = CHUNK * 2 in
      if target_buffer_size \<le> length (audio_buffer s) then
        (let segment = take target_buffer_size (audio_buffer s);
             s1 = s\<lparr>audio_buffer := popleft_n target_buffer_size (audio_buffer s)\<rparr>
         in if 0 < length segment then
              (Some segment,
               case backup_analyze_audio_segment pyin segment s1 of
                 Inr s2 \<Rightarrow> s2 | Inl e \<Rightarrow> s1)
            else (None, s1))
      else (None, s))"

text \<open>
  The two threads interleave; a schedule lists the atomic steps in the order they happen:
  a callback with its block, or one pass of the loop (taken while \<^verbatim>\<open>is_running\<close>).
  \<open>run\<close> returns the segments analysed and the final object.
\<close>

datatype event = Callback "sample list" | Iteration

fun run ::
  "float_ops \<Rightarrow> (sample list \<Rightarrow> pyin_result) \<Rightarrow> event list \<Rightarrow> analyzer \<Rightarrow>
     sample list list \<times> analyzer" where
  "run fl pyin [] s = ([], s)"
| "run fl pyin (Callback indata # es) s = run fl pyin es (audio_callback fl indata s)"
| "run fl pyin (Iteration # es) s =
     (if is_running s then
        (case audio_loop_iteration pyin s of
           (w, s') \<Rightarrow>
             (case run fl pyin es s' of
                (ws, s'') \<Rightarrow> ((case w of None \<Rightarrow> [] | Some seg \<Rightarrow> [seg]) @ ws, s'')))
      else ([], s))"

text \<open>
  \<^verbatim>\<open>start_analysis\<close> with a device selected and a stream that opens: nothing happens
  when the analysis is running; otherwise the flag is set and the buffer cleared.
\<close>

definition start_analysis :: "analyzer \<Rightarrow> analyzer" where
  "start_analysis s =
     (if is_running s then s else s\<lparr>is_running := True, audio_buffer := []\<rparr>)"

subsection \<open>Notions of the specification\<close>

text \<open>
  The estimates that survive the voicing filter: the entries of \<^verbatim>\<open>f0\<close> whose voicing
  probability is above 0.5, NaN dropped.
\<close>

definition survivors :: "real option list \<Rightarrow> real option list \<Rightarrow> real list" where
  "survivors f0 voiced_probs =
     not_nan (map fst (filter (\<lambda>fp. gt_half (snd fp)) (zip f0 voiced_probs)))"

text \<open>
  The volume formula in the specification's words: \<^verbatim>\<open>min(100, round(rms * SCALE))\<close>.
  \<open>round\<close> rounds to the nearest integer; how it breaks a tie plays no part below.
\<close>

definition spec_volume :: "real \<Rightarrow> real \<Rightarrow> int" where
  "spec_volume r SCALE = min 100 (round (r * SCALE))"

text \<open>A table for instances: A4 and B4 are both 24 Hz from 464 Hz.\<close>

definition tie_table :: note_table where
  "tie_table =
     [(''G4'', \<lparr>frequency = 392, western = ''G4'', japanese = ''so''\<rparr>),
      (''A4'', \<lparr>frequency = 440, western = ''A4'', japanese = ''ra''\<rparr>),
      (''B4'', \<lparr>frequency = 488, western = ''B4'', japanese = ''shi''\<rparr>)]"

subsection \<open>Facts about the deque\<close>

lemma length_deque_append:
  "length d \<le> maxlen \<Longrightarrow> length (deque_append maxlen d x) \<le> maxlen"
  by (auto simp: deque_append_def Let_def)

lemma deque_extend_drop:
  "length d \<le> maxlen \<Longrightarrow>
   deque_extend maxlen d xs = drop (length (d @ xs) - maxlen) (d @ xs)"
proof (induction xs arbitrary: d)
  case Nil
  then show ?case by simp
next
  case (Cons x xs)
  have len: "length (deque_append maxlen d x) \<le> maxlen"
    using Cons.prems by (rule length_deque_append)
  show ?case
  proof (cases "length d < maxlen")
    case True
    then have "deque_append maxlen d x = d @ [x]"
      by (simp add: deque_append_def Let_def)
    with Cons.IH [OF len] show ?thesis by simp
  next
    case False
    with Cons.prems have full: "length d = maxlen" by simp
    show ?thesis
    proof (cases d)
      case Nil
      with full have "maxlen = 0" by simp
      with Nil Cons.IH [of "[]"] show ?thesis
        by (simp add: deque_append_def)
    next
      case (Cons a d')
      then have app: "deque_append maxlen d x = d' @ [x]"
        using full by (simp add: deque_append_def Let_def)
      have "deque_extend maxlen d (x # xs) = drop (length (d' @ [x] @ xs) - maxlen) (d' @ [x] @ xs)"
        using Cons.IH [OF len] app by simp
      also have "\<dots> = drop (length (d @ x # xs) - maxlen) (d @ x # xs)"
        using Cons full by (simp add: drop_Cons')
      finally show ?thesis .
    qed
  qed
qed

lemma length_deque_extend:
  "length d \<le> maxlen \<Longrightarrow> length (deque_extend maxlen d xs) \<le> maxlen"
  by (simp add: deque_extend_drop)

lemma popleft_n_drop: "popleft_n n d = drop n d"
  by (induction n arbitrary: d) (auto simp: drop_Suc)

subsection \<open>Facts about the analysis and the loop\<close>

lemma audio_buffer_unvoiced: "audio_buffer (unvoiced s) = audio_buffer s"
  by (simp add: unvoiced_def)

lemma audio_buffer_publish: "audio_buffer (publish K d s) = audio_buffer s"
  by (simp add: publish_def split: prod.splits)

lemma is_running_unvoiced: "is_running (unvoiced s) = is_running s"
  by (simp add: unvoiced_def)

lemma is_running_publish: "is_running (publish K d s) = is_running s"
  by (simp add: publish_def split: prod.splits)

lemma analyze_body_cases:
  "analyze_body r s = Inr s' \<Longrightarrow> s' = unvoiced s \<or> (\<exists>d. s' = publish 10 d s)"
  by (auto simp: analyze_body_def Let_def split: pyin_result.splits sum.splits option.splits if_splits)

lemma analyze_audio_segment_cases:
  "\<exists>s'. analyze_audio_segment pyin segment s = Inr s' \<and> (s' = unvoiced s \<or> (\<exists>d. s' = publish 10 d s))"
  using analyze_body_cases [of "pyin segment" s]
  by (auto simp: analyze_audio_segment_def split: sum.splits)

lemma backup_analyze_body_cases:
  "backup_analyze_body r s = Inr s' \<Longrightarrow> s' = unvoiced s \<or> (\<exists>d. s' = publish (167 / 10) d s)"
  by (auto simp: backup_analyze_body_def Let_def split: pyin_result.splits sum.splits option.splits if_splits)

lemma backup_analyze_audio_segment_cases:
  "\<exists>s'. backup_analyze_audio_segment pyin segment s = Inr s' \<and>
     (s' = unvoiced s \<or> (\<exists>d. s' = publish (167 / 10) d s))"
  using backup_analyze_body_cases [of "pyin segment" s]
  by (auto simp: backup_analyze_audio_segment_def split: sum.splits)

lemma length_gained: "length (gained fl indata) = length indata"
  by (simp add: gained_def)

lemma audio_buffer_callback:
  "audio_buffer (audio_callback fl indata s) =
     deque_extend BUFFER_MAXLEN (audio_buffer s) (gained fl indata)"
  by (simp add: audio_callback_def gained_def Let_def split: sum.splits)

lemma is_running_callback: "is_running (audio_callback fl indata s) = is_running s"
  by (simp add: audio_callback_def Let_def split: sum.splits)

lemma audio_loop_iteration_ready:
  assumes "FRAME_LENGTH \<le> length (audio_buffer s)"
  shows "fst (audio_loop_iteration pyin s) = Some (take FRAME_LENGTH (audio_buffer s))"
    and "audio_buffer (snd (audio_loop_iteration pyin s)) = drop CHUNK (audio_buffer s)"
proof -
  let ?s1 = "s\<lparr>audio_buffer := popleft_n (min (length (audio_buffer s)) CHUNK) (audio_buffer s)\<rparr>"
  have le: "CHUNK \<le> length (audio_buffer s)"
    using assms by (simp add: FRAME_LENGTH_def)
  obtain s' where s': "analyze_audio_segment pyin (take FRAME_LENGTH (audio_buffer s)) ?s1 = Inr s'"
    and cases: "s' = unvoiced ?s1 \<or> (\<exists>d. s' = publish 10 d ?s1)"
    using analyze_audio_segment_cases by blast
  from cases have "audio_buffer s' = audio_buffer ?s1"
    by (auto simp: audio_buffer_unvoiced audio_buffer_publish)
  then have buf: "audio_buffer s' = drop CHUNK (audio_buffer s)"
    using le by (simp add: popleft_n_drop min_absorb2)
  show "fst (audio_loop_iteration pyin s) = Some (take FRAME_LENGTH (audio_buffer s))"
    using assms by (simp add: audio_loop_iteration_def Let_def)
  show "audio_buffer (snd (audio_loop_iteration pyin s)) = drop CHUNK (audio_buffer s)"
    using assms s' buf by (simp add: audio_loop_iteration_def Let_def)
qed

lemma audio_loop_iteration_idle:
  "\<not> FRAME_LENGTH \<le> length (audio_buffer s) \<Longrightarrow> audio_loop_iteration pyin s = (None, s)"
  by (simp add: audio_loop_iteration_def)

lemma is_running_iteration: "is_running (snd (audio_loop_iteration pyin s)) = is_running s"
proof (cases "FRAME_LENGTH \<le> length (audio_buffer s)")
  case True
  let ?s1 = "s\<lparr>audio_buffer := popleft_n (min (length (audio_buffer s)) CHUNK) (audio_buffer s)\<rparr>"
  obtain s' where s': "analyze_audio_segment pyin (take FRAME_LENGTH (audio_buffer s)) ?s1 = Inr s'"
    and cases: "s' = unvoiced ?s1 \<or> (\<exists>d. s' = publish 10 d ?s1)"
    using analyze_audio_segment_cases by blast
  from cases have "is_running s' = is_running s"
    by (auto simp: is_running_unvoiced is_running_publish)
  with True s' show ?thesis
    by (simp add: audio_loop_iteration_def Let_def)
next
  case False
  then show ?thesis by (simp add: audio_loop_iteration_idle)
qed

lemma length_buffer_iteration:
  "length (audio_buffer (snd (audio_loop_iteration pyin s))) \<le> length (audio_buffer s)"
proof (cases "FRAME_LENGTH \<le> length (audio_buffer s)")
  case True
  then show ?thesis by (simp add: audio_loop_iteration_ready(2))
next
  case False
  then show ?thesis by (simp add: audio_loop_iteration_idle)
qed

lemma length_buffer_run:
  "length (audio_buffer s) \<le> BUFFER_MAXLEN \<Longrightarrow>
   length (audio_buffer (snd (run fl pyin evs s))) \<le> BUFFER_MAXLEN"
proof (induction fl pyin evs s rule: run.induct)
  case (1 fl pyin s)
  then show ?case by simp
next
  case (2 fl pyin indata es s)
  then show ?case
    by (simp add: audio_buffer_callback length_deque_extend)
next
  case (3 fl pyin es s)
  show ?case
  proof (cases "is_running s")
    case True
    obtain w s' where it: "audio_loop_iteration pyin s = (w, s')"
      by (cases "audio_loop_iteration pyin s")
    have "length (audio_buffer s') \<le> BUFFER_MAXLEN"
      using length_buffer_iteration [of pyin s] it "3.prems" by simp
    with "3.IH" [OF True it [symmetric]] have "length (audio_buffer (snd (run fl pyin es s'))) \<le> BUFFER_MAXLEN"
      by simp
    with True it show ?thesis
      by (cases "run fl pyin es s'") simp
  next
    case False
    with "3.prems" show ?thesis by simp
  qed
qed

lemma trim_trim:
  "drop (length (drop (length A - m) A @ c) - m) (drop (length A - m) A @ c) =
   drop (length (A @ c) - m) (A @ c)"
proof (cases "length A \<le> m")
  case True
  then show ?thesis by simp
next
  case False
  define j where "j = length A - m"
  have j: "j \<le> length A" "length A - j = m"
    using False by (simp_all add: j_def)
  have "drop (length (drop j A @ c) - m) (drop j A @ c) = drop (length c) (drop j (A @ c))"
    using j by simp
  also have "\<dots> = drop (length c + j) (A @ c)"
    by (simp only: drop_drop)
  also have "length c + j = length (A @ c) - m"
    using False by (simp add: j_def)
  finally show ?thesis
    by (simp only: j_def)
qed

lemma buffer_run_callbacks:
  "length (audio_buffer s) \<le> BUFFER_MAXLEN \<Longrightarrow>
   audio_buffer (snd (run fl pyin (map Callback blocks) s)) =
     drop (length (audio_buffer s @ concat (map (gained fl) blocks)) - BUFFER_MAXLEN)
       (audio_buffer s @ concat (map (gained fl) blocks))"
proof (induction blocks arbitrary: s)
  case Nil
  then show ?case by simp
next
  case (Cons b blocks)
  let ?s1 = "audio_callback fl b s"
  have buf1: "audio_buffer ?s1 =
      drop (length (audio_buffer s @ gained fl b) - BUFFER_MAXLEN) (audio_buffer s @ gained fl b)"
    using Cons.prems by (simp add: audio_buffer_callback deque_extend_drop)
  have len1: "length (audio_buffer ?s1) \<le> BUFFER_MAXLEN"
    using Cons.prems by (simp add: audio_buffer_callback length_deque_extend)
  have "audio_buffer (snd (run fl pyin (map Callback (b # blocks)) s)) =
      drop (length (audio_buffer ?s1 @ concat (map (gained fl) blocks)) - BUFFER_MAXLEN)
        (audio_buffer ?s1 @ concat (map (gained fl) blocks))"
    using Cons.IH [OF len1] by simp
  also have "\<dots> = drop (length (audio_buffer s @ concat (map (gained fl) (b # blocks))) - BUFFER_MAXLEN)
        (audio_buffer s @ concat (map (gained fl) (b # blocks)))"
    unfolding buf1 using trim_trim [of "audio_buffer s @ gained fl b" BUFFER_MAXLEN "concat (map (gained fl) blocks)"]
    by simp
  finally show ?case .
qed

lemma backup_audio_loop_iteration_ready:
  assumes "CHUNK * 2 \<le> length (audio_buffer s)"
  shows "fst (backup_audio_loop_iteration pyin s) = Some (take (CHUNK * 2) (audio_buffer s))"
    and "audio_buffer (snd (backup_audio_loop_iteration pyin s)) = drop (CHUNK * 2) (audio_buffer s)"
proof -
  let ?s1 = "s\<lparr>audio_buffer := popleft_n (CHUNK * 2) (audio_buffer s)\<rparr>"
  have ne: "audio_buffer s \<noteq> []"
    using assms by (auto simp: CHUNK_def)
  have pos: "0 < CHUNK"
    by (simp add: CHUNK_def)
  obtain s' where s': "backup_analyze_audio_segment pyin (take (CHUNK * 2) (audio_buffer s)) ?s1 = Inr s'"
    and cases: "s' = unvoiced ?s1 \<or> (\<exists>d. s' = publish (167 / 10) d ?s1)"
    using backup_analyze_audio_segment_cases by blast
  from cases have buf: "audio_buffer s' = drop (CHUNK * 2) (audio_buffer s)"
    by (auto simp: audio_buffer_unvoiced audio_buffer_publish popleft_n_drop)
  show "fst (backup_audio_loop_iteration pyin s) = Some (take (CHUNK * 2) (audio_buffer s))"
    using assms pos ne by (simp add: backup_audio_loop_iteration_def Let_def)
  show "audio_buffer (snd (backup_audio_loop_iteration pyin s)) = drop (CHUNK * 2) (audio_buffer s)"
    using assms pos ne s' buf by (simp add: backup_audio_loop_iteration_def Let_def)
qed

text \<open>
  Eviction between two passes moves the window further than the hop. A full buffer of
  10240 numbered samples: the first pass analyses samples 0 to 2047 and leaves 9216
  samples; two callbacks of 1024 samples each overflow the buffer by 1024, so that the
  next pass analyses samples 2048 to 4095.
\<close>

lemma eviction_between_passes:
  "fst (audio_loop_iteration pyin
      ((init [])\<lparr>audio_buffer := map (\<lambda>n. Some (real n)) [0..<10240]\<rparr>)) =
     Some (map (\<lambda>n. Some (real n)) [0..<2048])
   \<and> fst (audio_loop_iteration pyin
      (snd (run fl pyin [Callback (replicate 1024 (Some 1)), Callback (replicate 1024 (Some 2))]
        (snd (audio_loop_iteration pyin
          ((init [])\<lparr>audio_buffer := map (\<lambda>n. Some (real n)) [0..<10240]\<rparr>)))))) =
     Some (map (\<lambda>n. Some (real n)) [2048..<4096])"
proof -
  define s where "s = (init [])\<lparr>audio_buffer := map (\<lambda>n. Some (real n)) [0..<10240]\<rparr>"
  define s' where "s' = snd (audio_loop_iteration pyin s)"
  define s'' where "s'' = snd (run fl pyin (map Callback [replicate 1024 (Some 1), replicate 1024 (Some 2)]) s')"
  have buf: "audio_buffer s = map (\<lambda>n. Some (real n)) [0..<10240]"
    by (simp add: s_def del: upt_rec_numeral)
  have l: "FRAME_LENGTH \<le> length (audio_buffer s)"
    by (simp add: buf FRAME_LENGTH_def CHUNK_def del: upt_rec_numeral)
  have w: "fst (audio_loop_iteration pyin s) = Some (map (\<lambda>n. Some (real n)) [0..<2048])"
    using audio_loop_iteration_ready(1) [OF l, of pyin]
    by (simp add: buf FRAME_LENGTH_def CHUNK_def take_map del: upt_rec_numeral)
  have b: "audio_buffer s' = map (\<lambda>n. Some (real n)) [1024..<10240]"
    using audio_loop_iteration_ready(2) [OF l, of pyin]
    by (simp add: s'_def buf CHUNK_def drop_map del: upt_rec_numeral)
  have "length (audio_buffer s') \<le> BUFFER_MAXLEN"
    by (simp add: b BUFFER_MAXLEN_def CHUNK_def del: upt_rec_numeral)
  from buffer_run_callbacks [OF this, of fl pyin "[replicate 1024 (Some 1), replicate 1024 (Some 2)]"]
  have b': "audio_buffer s'' =
      map (\<lambda>n. Some (real n)) [2048..<10240]
        @ replicate 1024 (Some (array_times fl 1 10)) @ replicate 1024 (Some (array_times fl 2 10))"
    unfolding s''_def [symmetric]
    by (simp add: b BUFFER_MAXLEN_def CHUNK_def gained_def GAIN_MULTIPLIER_def drop_map
        del: upt_rec_numeral)
  have l': "FRAME_LENGTH \<le> length (audio_buffer s'')"
    by (simp add: b' FRAME_LENGTH_def CHUNK_def del: upt_rec_numeral)
  have "fst (audio_loop_iteration pyin s'') = Some (map (\<lambda>n. Some (real n)) [2048..<4096])"
    using audio_loop_iteration_ready(1) [OF l', of pyin]
    by (simp add: b' FRAME_LENGTH_def CHUNK_def take_map del: upt_rec_numeral)
  with w show ?thesis
    unfolding s''_def s'_def s_def by (simp del: upt_rec_numeral)
qed

subsection \<open>Facts about the note scan\<close>

lemma note_loop_append:
  "note_loop f (xs @ ys) st = note_loop f ys (note_loop f xs st)"
proof (induction f xs st rule: note_loop.induct)
  case (1 f st)
  then show ?case by simp
next
  case (2 f note_key note_info rest min_diff closest_note closest_japanese closest_freq)
  then show ?case by (simp add: Let_def)
qed

lemma note_loop_first_min:
  assumes "table \<noteq> []"
  shows "\<exists>i<length table.
      note_loop f table (None, a, b, c) =
        (Some \<bar>frequency (snd (table ! i)) - f\<bar>, western (snd (table ! i)),
         japanese (snd (table ! i)), frequency (snd (table ! i)))
      \<and> (\<forall>j<length table. \<bar>frequency (snd (table ! i)) - f\<bar> \<le> \<bar>frequency (snd (table ! j)) - f\<bar>)
      \<and> (\<forall>j<i. \<bar>frequency (snd (table ! i)) - f\<bar> < \<bar>frequency (snd (table ! j)) - f\<bar>)"
  using assms
proof (induction table rule: rev_induct)
  case Nil
  then show ?case by simp
next
  case (snoc x xs)
  obtain k info where x: "x = (k, info)" by (cases x)
  let ?d = "\<lambda>e::string \<times> note_info. \<bar>frequency (snd e) - f\<bar>"
  show ?case
  proof (cases "xs = []")
    case True
    then show ?thesis by (simp add: x Let_def)
  next
    case False
    from snoc.IH [OF False] obtain i where i: "i < length xs"
      and res: "note_loop f xs (None, a, b, c) =
        (Some (?d (xs ! i)), western (snd (xs ! i)), japanese (snd (xs ! i)), frequency (snd (xs ! i)))"
      and least: "\<forall>j<length xs. ?d (xs ! i) \<le> ?d (xs ! j)"
      and first: "\<forall>j<i. ?d (xs ! i) < ?d (xs ! j)"
      by blast
    show ?thesis
    proof (cases "?d x < ?d (xs ! i)")
      case True
      have "note_loop f (xs @ [x]) (None, a, b, c) =
          (Some (?d x), western (snd x), japanese (snd x), frequency (snd x))"
        using True by (simp add: note_loop_append res x Let_def)
      moreover have "\<forall>j<length (xs @ [x]). ?d x \<le> ?d ((xs @ [x]) ! j)"
        using True least by (auto simp: nth_append less_Suc_eq)
      moreover have "\<forall>j<length xs. ?d x < ?d ((xs @ [x]) ! j)"
        using True least by (auto simp: nth_append)
      ultimately show ?thesis
        by (intro exI [of _ "length xs"]) (simp add: nth_append)
    next
      case False
      have "note_loop f (xs @ [x]) (None, a, b, c) =
          (Some (?d (xs ! i)), western (snd (xs ! i)), japanese (snd (xs ! i)), frequency (snd (xs ! i)))"
        using False by (simp add: note_loop_append res x Let_def)
      moreover have "\<forall>j<length (xs @ [x]). ?d (xs ! i) \<le> ?d ((xs @ [x]) ! j)"
        using False least by (auto simp: nth_append less_Suc_eq)
      ultimately show ?thesis
        using i first by (intro exI [of _ i]) (simp add: nth_append)
    qed
  qed
qed

subsection \<open>Facts about the aggregation and the confidence\<close>

lemma sort_Nil_iff: "sort xs = [] \<longleftrightarrow> xs = []"
  by (metis length_sort length_0_conv)

lemma np_median_nonempty:
  "xs \<noteq> [] \<Longrightarrow>
   np_median xs =
     Some (if odd (length xs) then sort xs ! (length xs div 2)
           else (sort xs ! (length xs div 2 - 1) + sort xs ! (length xs div 2)) / 2)"
  by (simp add: np_median_def Let_def sort_Nil_iff)

lemma np_median_None: "np_median xs = None \<longleftrightarrow> xs = []"
proof (cases "xs = []")
  case True
  then show ?thesis by (simp add: np_median_def)
next
  case False
  with np_median_nonempty [OF False] show ?thesis
    by (simp only: option.distinct)
qed

lemma sorted_count_le:
  assumes "sorted s" and "k < length s" and "s ! k \<le> (m::real)"
  shows "k + 1 \<le> length (filter (\<lambda>x. x \<le> m) s)"
proof -
  have all: "\<forall>x\<in>set (take (k + 1) s). x \<le> m"
  proof
    fix x assume "x \<in> set (take (k + 1) s)"
    then obtain i where "i < k + 1" "i < length s" "x = s ! i"
      by (auto simp: in_set_conv_nth)
    then have "x \<le> s ! k"
      using assms(1,2) by (simp add: sorted_nth_mono)
    with assms(3) show "x \<le> m" by simp
  qed
  have "length (filter (\<lambda>x. x \<le> m) s) =
      length (filter (\<lambda>x. x \<le> m) (take (k + 1) s)) + length (filter (\<lambda>x. x \<le> m) (drop (k + 1) s))"
    by (metis append_take_drop_id filter_append length_append)
  also have "filter (\<lambda>x. x \<le> m) (take (k + 1) s) = take (k + 1) s"
    using all by (simp add: filter_id_conv)
  finally show ?thesis
    using assms(2) by simp
qed

lemma sorted_count_ge:
  assumes "sorted s" and "k < length s" and "(m::real) \<le> s ! k"
  shows "length s - k \<le> length (filter (\<lambda>x. m \<le> x) s)"
proof -
  have all: "\<forall>x\<in>set (drop k s). m \<le> x"
  proof
    fix x assume "x \<in> set (drop k s)"
    then obtain i where "i < length s - k" "x = s ! (k + i)"
      by (auto simp: in_set_conv_nth)
    then have "s ! k \<le> x"
      using assms(1,2) by (simp add: sorted_nth_mono)
    with assms(3) show "m \<le> x" by simp
  qed
  have "length (filter (\<lambda>x. m \<le> x) s) =
      length (filter (\<lambda>x. m \<le> x) (take k s)) + length (filter (\<lambda>x. m \<le> x) (drop k s))"
    by (metis append_take_drop_id filter_append length_append)
  also have "filter (\<lambda>x. m \<le> x) (drop k s) = drop k s"
    using all by (simp add: filter_id_conv)
  finally show ?thesis
    by simp
qed

lemma length_filter_sort:
  "length (filter P (sort xs)) = length (filter P xs)"
proof (induction xs)
  case Nil
  then show ?case by simp
next
  case (Cons x xs)
  show ?case
  proof (cases "P x")
    case True
    then have "filter P (insort x (sort xs)) = insort x (filter P (sort xs))"
      by (simp add: filter_insort)
    with True Cons show ?thesis by simp
  next
    case False
    then have "filter P (insort x (sort xs)) = filter P (sort xs)"
      by (simp add: filter_insort_triv)
    with False Cons show ?thesis by simp
  qed
qed

lemma np_median_halves:
  assumes "np_median xs = Some m"
  shows "length xs \<le> 2 * length (filter (\<lambda>x. x \<le> m) xs)
    \<and> length xs \<le> 2 * length (filter (\<lambda>x. m \<le> x) xs)"
proof -
  let ?s = "sort xs" and ?n = "length xs"
  have ne: "xs \<noteq> []"
    using assms np_median_None [of xs] by auto
  then have n: "0 < ?n" by simp
  have s: "sorted ?s" "length ?s = ?n" by simp_all
  show ?thesis
  proof (cases "odd ?n")
    case True
    then have m: "m = ?s ! (?n div 2)"
      using assms np_median_nonempty [OF ne] by simp
    have k: "?n div 2 < length ?s"
      using n by simp
    have "?n div 2 + 1 \<le> length (filter (\<lambda>x. x \<le> m) ?s)"
      using sorted_count_le [OF s(1) k, of m] m by simp
    moreover have "length ?s - ?n div 2 \<le> length (filter (\<lambda>x. m \<le> x) ?s)"
      using sorted_count_ge [OF s(1) k, of m] m by simp
    ultimately show ?thesis
      unfolding length_filter_sort s(2) by linarith
  next
    case False
    then have m: "m = (?s ! (?n div 2 - 1) + ?s ! (?n div 2)) / 2"
      using assms np_median_nonempty [OF ne] by simp
    from False have "?n \<noteq> 1" by auto
    with n have "2 \<le> ?n" by linarith
    moreover from False have "2 * (?n div 2) = ?n" by simp
    ultimately have two: "2 \<le> ?n" "2 * (?n div 2) = ?n" by simp_all
    have k1: "?n div 2 - 1 < length ?s" and k2: "?n div 2 < length ?s"
      using two by simp_all
    have "?s ! (?n div 2 - 1) \<le> ?s ! (?n div 2)"
      using s(1) k2 by (simp add: sorted_nth_mono)
    then have lo: "?s ! (?n div 2 - 1) \<le> m" and hi: "m \<le> ?s ! (?n div 2)"
      unfolding m by simp_all
    have "?n div 2 - 1 + 1 \<le> length (filter (\<lambda>x. x \<le> m) ?s)"
      using sorted_count_le [OF s(1) k1 lo] .
    moreover have "length ?s - ?n div 2 \<le> length (filter (\<lambda>x. m \<le> x) ?s)"
      using sorted_count_ge [OF s(1) k2 hi] .
    ultimately show ?thesis
      unfolding length_filter_sort s(2) using two by linarith
  qed
qed

lemma np_mean_None: "np_mean xs = None \<longleftrightarrow> xs = []"
  by (simp add: np_mean_def)

lemma confident_f0_zip:
  "map fst (filter snd (zip f0 (map gt_half voiced_probs))) =
   map fst (filter (\<lambda>fp. gt_half (snd fp)) (zip f0 voiced_probs))"
proof (induction f0 arbitrary: voiced_probs)
  case Nil
  then show ?case by simp
next
  case (Cons x f0)
  then show ?case by (cases voiced_probs) simp_all
qed

lemma mask_index_survivors:
  "length voiced_probs = length f0 \<Longrightarrow>
   \<exists>confident_f0. mask_index f0 (map gt_half voiced_probs) = Inr confident_f0
     \<and> not_nan confident_f0 = survivors f0 voiced_probs"
  by (simp add: mask_index_def survivors_def confident_f0_zip)

lemma set_not_nan: "set (not_nan a) = {v. Some v \<in> set a}"
  by (induction a) (auto simp: not_nan_def split: option.splits)

lemma survivors_valid:
  "survivors f0 voiced_probs \<noteq> [] \<Longrightarrow> not_nan f0 \<noteq> []"
proof -
  assume "survivors f0 voiced_probs \<noteq> []"
  then obtain v where "v \<in> set (survivors f0 voiced_probs)"
    by (cases "survivors f0 voiced_probs") auto
  then have "Some v \<in> set f0"
    by (auto simp: survivors_def set_not_nan dest: set_zip_leftD)
  then have "v \<in> set (not_nan f0)"
    by (simp add: set_not_nan)
  then show ?thesis by auto
qed

lemma survivors_confident:
  "survivors f0 voiced_probs \<noteq> [] \<Longrightarrow>
   voiced_probs \<noteq> [] \<and> map fst (filter (\<lambda>fp. gt_half (snd fp)) (zip f0 voiced_probs)) \<noteq> []"
  by (auto simp: survivors_def not_nan_def)

lemma analyze_body_survivors:
  assumes "length voiced_probs = length f0"
  shows "analyze_body (Returned f0 voiced_probs) s =
    (case np_median (survivors f0 voiced_probs) of
       None \<Rightarrow> Inr (unvoiced s)
     | Some d \<Rightarrow> if 75 \<le> d \<and> d \<le> 1200 then Inr (publish 10 d s) else Inr (unvoiced s))"
proof -
  from mask_index_survivors [OF assms] obtain confident_f0
    where m: "mask_index f0 (map gt_half voiced_probs) = Inr confident_f0"
      and c: "not_nan confident_f0 = survivors f0 voiced_probs"
    by blast
  show ?thesis
  proof (cases "survivors f0 voiced_probs = []")
    case True
    then have "np_median (survivors f0 voiced_probs) = None"
      by (simp add: np_median_None)
    with True m c show ?thesis
      by (simp add: analyze_body_def Let_def)
  next
    case False
    then have "not_nan f0 \<noteq> []"
      by (rule survivors_valid)
    with False m c show ?thesis
      by (simp add: analyze_body_def Let_def)
  qed
qed

lemma analyze_body_mismatch:
  "length voiced_probs \<noteq> length f0 \<Longrightarrow>
   analyze_body (Returned f0 voiced_probs) s = Inr (unvoiced s)
   \<or> analyze_body (Returned f0 voiced_probs) s = Inl IndexError"
  by (simp add: analyze_body_def mask_index_def Let_def)

lemma backup_avg_survivors:
  assumes "length voiced_probs = length f0" and "survivors f0 voiced_probs \<noteq> []"
  shows "backup_avg f0 voiced_probs = Inr (np_mean (survivors f0 voiced_probs))"
proof -
  from mask_index_survivors [OF assms(1)] obtain confident_f0
    where m: "mask_index f0 (map gt_half voiced_probs) = Inr confident_f0"
      and c: "not_nan confident_f0 = survivors f0 voiced_probs"
    by blast
  from c assms(2) have "confident_f0 \<noteq> []"
    by (auto simp: not_nan_def)
  moreover from assms(2) have "voiced_probs \<noteq> []"
    by (simp add: survivors_confident)
  ultimately show ?thesis
    using m c assms(2) by (simp add: backup_avg_def Let_def)
qed

lemma backup_analyze_body_survivors:
  assumes "length voiced_probs = length f0" and "survivors f0 voiced_probs \<noteq> []"
  shows "backup_analyze_body (Returned f0 voiced_probs) s =
    (case np_mean (survivors f0 voiced_probs) of
       None \<Rightarrow> Inr (unvoiced s)
     | Some a \<Rightarrow> if 75 \<le> a \<and> a \<le> 1200 then Inr (publish (167 / 10) a s) else Inr (unvoiced s))"
proof -
  have "not_nan f0 \<noteq> []"
    using assms(2) by (rule survivors_valid)
  then show ?thesis
    using backup_avg_survivors [OF assms]
    by (simp add: backup_analyze_body_def Let_def split: option.splits)
qed

lemma current_f0_publish: "current_f0 (publish K d s) = d"
  by (simp add: publish_def split: prod.splits)

lemma note_confidence_publish:
  "frequency_to_note d (note_data s) = (w, j, c) \<Longrightarrow>
   note_confidence (publish K d s) = (if 0 < c then confidence K d c else 0)"
  by (simp add: publish_def)

lemma confidence_range: "0 \<le> confidence K d c \<and> confidence K d c \<le> 100"
  by (simp add: confidence_def Let_def)

lemma confidence_exact: "confidence K c c = 100"
  by (simp add: confidence_def Let_def)

lemma confidence_unfold:
  "confidence K d c = min 100 (max 0 (100 - \<bar>d - c\<bar> / c * 100 * K))"
  by (simp add: confidence_def Let_def)

lemma scaled_deviation_mono:
  assumes "0 < (c::real)" and "0 \<le> K" and "\<bar>d1 - c\<bar> \<le> \<bar>d2 - c\<bar>"
  shows "\<bar>d1 - c\<bar> / c * 100 * K \<le> \<bar>d2 - c\<bar> / c * 100 * K"
proof -
  have "\<bar>d1 - c\<bar> / c \<le> \<bar>d2 - c\<bar> / c"
    using assms(1,3) by (simp add: divide_right_mono)
  then have "\<bar>d1 - c\<bar> / c * 100 \<le> \<bar>d2 - c\<bar> / c * 100"
    by (rule mult_right_mono) simp
  then show ?thesis
    using assms(2) by (rule mult_right_mono)
qed

lemma scaled_deviation_strict:
  assumes "0 < (c::real)" and "0 < K" and "\<bar>d1 - c\<bar> < \<bar>d2 - c\<bar>"
  shows "\<bar>d1 - c\<bar> / c * 100 * K < \<bar>d2 - c\<bar> / c * 100 * K"
proof -
  have "\<bar>d1 - c\<bar> / c < \<bar>d2 - c\<bar> / c"
    using assms(1,3) by (simp add: divide_strict_right_mono)
  then have "\<bar>d1 - c\<bar> / c * 100 < \<bar>d2 - c\<bar> / c * 100"
    by (rule mult_strict_right_mono) simp
  then show ?thesis
    using assms(2) by (rule mult_strict_right_mono)
qed

lemma confidence_mono:
  assumes "0 < c" and "0 \<le> K" and "\<bar>d1 - c\<bar> \<le> \<bar>d2 - c\<bar>"
  shows "confidence K d2 c \<le> confidence K d1 c"
  using scaled_deviation_mono [OF assms]
  unfolding confidence_unfold by linarith

lemma confidence_strict:
  assumes "0 < c" and "0 < K" and "\<bar>d1 - c\<bar> < \<bar>d2 - c\<bar>" and "0 < confidence K d2 c"
  shows "confidence K d2 c < confidence K d1 c"
proof -
  have "0 \<le> \<bar>d1 - c\<bar> / c * 100 * K"
    using assms(1,2) by simp
  with scaled_deviation_strict [OF assms(1-3)] assms(4) show ?thesis
    unfolding confidence_unfold by linarith
qed

lemma analyze_audio_segment_unvoiced_when:
  assumes "pyin segment = Returned f0 voiced_probs"
    and "np_median (survivors f0 voiced_probs) = None
         \<or> (\<exists>m. np_median (survivors f0 voiced_probs) = Some m \<and> \<not> (75 \<le> m \<and> m \<le> 1200))"
  shows "analyze_audio_segment pyin segment s = Inr (unvoiced s)"
proof (cases "length voiced_probs = length f0")
  case True
  from assms(2) show ?thesis
    using analyze_body_survivors [OF True, of s] assms(1)
    by (auto simp: analyze_audio_segment_def)
next
  case False
  from analyze_body_mismatch [OF False, of s] show ?thesis
    using assms(1) by (auto simp: analyze_audio_segment_def)
qed

lemma backup_is_running_iteration:
  "is_running (snd (backup_audio_loop_iteration pyin s)) = is_running s"
proof -
  let ?s1 = "s\<lparr>audio_buffer := popleft_n (CHUNK * 2) (audio_buffer s)\<rparr>"
  obtain s' where s': "backup_analyze_audio_segment pyin (take (CHUNK * 2) (audio_buffer s)) ?s1 = Inr s'"
    and cases: "s' = unvoiced ?s1 \<or> (\<exists>d. s' = publish (167 / 10) d ?s1)"
    using backup_analyze_audio_segment_cases by blast
  from cases have "is_running s' = is_running s"
    by (auto simp: is_running_unvoiced is_running_publish)
  with s' show ?thesis
    by (simp add: backup_audio_loop_iteration_def Let_def)
qed

subsection \<open>Facts about the volume\<close>

lemma callback_volume:
  "rms fl (gained fl indata) = Some r \<Longrightarrow> 0 \<le> scalar_times fl r 100 \<Longrightarrow>
   current_volume (audio_callback fl indata s) = min 100 \<lfloor>scalar_times fl r 100\<rfloor>"
  by (simp add: audio_callback_def py_int_def Let_def)

lemma callback_volume_nan:
  "rms fl (gained fl indata) = None \<Longrightarrow>
   current_volume (audio_callback fl indata s) = current_volume s"
  by (simp add: audio_callback_def py_int_def Let_def)

lemma v01_volume:
  assumes "rms fl audio_data = Some r" and "0 \<le> scalar_times fl r 200"
  shows "v01_current_volume fl audio_data = Inr (min 100 \<lfloor>scalar_times fl r 200\<rfloor>)"
proof (cases "100 < scalar_times fl r 200")
  case True
  then have "100 \<le> \<lfloor>scalar_times fl r 200\<rfloor>"
    by (simp add: le_floor_iff)
  with True assms(1) show ?thesis
    by (simp add: v01_current_volume_def py_int_def)
next
  case False
  then have "\<lfloor>scalar_times fl r 200\<rfloor> \<le> 100"
    by (simp add: floor_le_iff)
  with False assms show ?thesis
    by (simp add: v01_current_volume_def py_int_def)
qed

text \<open>The operations without rounding on a block of \<open>n\<close> equal samples.\<close>

lemma those_replicate: "those (replicate n (Some c)) = Some (replicate n c)"
  by (induction n) simp_all

lemma rms_exact_replicate:
  assumes "0 < n"
  shows "rms exact_ops (replicate n (Some x)) = Some \<bar>x\<bar>"
proof -
  have "those (map (map_option (array_square exact_ops)) (replicate n (Some x))) =
      Some (replicate n (x ^ 2))"
    by (simp add: those_replicate exact_ops_def)
  moreover have "replicate n (x ^ 2) \<noteq> []"
    using assms by simp
  moreover have "array_mean exact_ops (replicate n (x ^ 2)) = x ^ 2"
    using assms by (simp add: exact_ops_def sum_list_replicate)
  moreover have "scalar_sqrt exact_ops (x ^ 2) = \<bar>x\<bar>"
    by (simp add: exact_ops_def)
  ultimately show ?thesis
    by (simp add: rms_def)
qed

lemma gained_exact_replicate:
  "gained exact_ops (replicate n (Some x)) = replicate n (Some (x * 10))"
  by (simp add: gained_def GAIN_MULTIPLIER_def exact_ops_def)

lemma scalar_times_exact: "scalar_times exact_ops x y = x * y"
  by (simp add: exact_ops_def)

section \<open>The properties of the specification\<close>

text \<open>
  C1 (as amended). In the clean variant, a pass of the analysis loop that finds at least
  \<open>FRAME_LENGTH\<close> samples hands the \<open>FRAME_LENGTH = 2 * CHUNK\<close> oldest samples to the
  analysis and then discards exactly the \<open>HOP_LENGTH = CHUNK\<close> oldest. When the blocks
  pushed before the next pass, whatever their sizes, fit into the buffer without eviction,
  the next window is the sample stream taken \<open>HOP_LENGTH\<close> samples further on, so the
  two windows share \<open>FRAME_LENGTH - HOP_LENGTH\<close> samples. The backup variant extracts the
  same window but discards the full frame.
\<close>

theorem framer_window_and_hop:
  assumes "FRAME_LENGTH \<le> length (audio_buffer s)"
  shows "FRAME_LENGTH = 2 * CHUNK \<and> HOP_LENGTH = CHUNK
    \<and> fst (audio_loop_iteration pyin s) = Some (take FRAME_LENGTH (audio_buffer s))
    \<and> length (take FRAME_LENGTH (audio_buffer s)) = FRAME_LENGTH
    \<and> audio_buffer (snd (audio_loop_iteration pyin s)) = drop HOP_LENGTH (audio_buffer s)
    \<and> length (audio_buffer (snd (audio_loop_iteration pyin s))) =
        length (audio_buffer s) - HOP_LENGTH
    \<and> (length (audio_buffer s) - HOP_LENGTH + length (concat blocks) \<le> BUFFER_MAXLEN
        \<and> FRAME_LENGTH + HOP_LENGTH \<le> length (audio_buffer s) + length (concat blocks) \<longrightarrow>
        fst (audio_loop_iteration pyin
              (snd (run fl pyin (map Callback blocks) (snd (audio_loop_iteration pyin s))))) =
          Some (take FRAME_LENGTH
                 (drop HOP_LENGTH (audio_buffer s @ concat (map (gained fl) blocks)))))
    \<and> fst (backup_audio_loop_iteration pyin s) = Some (take FRAME_LENGTH (audio_buffer s))
    \<and> audio_buffer (snd (backup_audio_loop_iteration pyin s)) =
        drop FRAME_LENGTH (audio_buffer s)"
proof -
  let ?s' = "snd (audio_loop_iteration pyin s)"
  let ?new = "concat (map (gained fl) blocks)"
  have hop: "HOP_LENGTH \<le> length (audio_buffer s)"
    using assms by (simp add: HOP_LENGTH_def FRAME_LENGTH_def)
  have buf': "audio_buffer ?s' = drop HOP_LENGTH (audio_buffer s)"
    using assms by (simp add: audio_loop_iteration_ready(2) HOP_LENGTH_def)
  have len_new: "length ?new = length (concat blocks)"
    by (induction blocks) (simp_all add: gained_def)
  have next_window: "fst (audio_loop_iteration pyin (snd (run fl pyin (map Callback blocks) ?s'))) =
      Some (take FRAME_LENGTH (drop HOP_LENGTH (audio_buffer s @ ?new)))"
    if fits: "length (audio_buffer s) - HOP_LENGTH + length (concat blocks) \<le> BUFFER_MAXLEN"
      and enough: "FRAME_LENGTH + HOP_LENGTH \<le> length (audio_buffer s) + length (concat blocks)"
  proof -
    let ?s'' = "snd (run fl pyin (map Callback blocks) ?s')"
    have "length (audio_buffer ?s') \<le> BUFFER_MAXLEN"
      using fits buf' by simp
    then have "audio_buffer ?s'' =
        drop (length (audio_buffer ?s' @ ?new) - BUFFER_MAXLEN) (audio_buffer ?s' @ ?new)"
      by (rule buffer_run_callbacks)
    also have "length (audio_buffer ?s' @ ?new) - BUFFER_MAXLEN = 0"
      using fits buf' len_new by simp
    finally have buf'': "audio_buffer ?s'' = drop HOP_LENGTH (audio_buffer s @ ?new)"
      using buf' hop by simp
    have "FRAME_LENGTH \<le> length (audio_buffer ?s'')"
      using enough len_new unfolding buf'' by simp
    then show ?thesis
      by (simp add: audio_loop_iteration_ready(1) buf'')
  qed
  have "fst (backup_audio_loop_iteration pyin s) = Some (take FRAME_LENGTH (audio_buffer s))"
    and "audio_buffer (snd (backup_audio_loop_iteration pyin s)) = drop FRAME_LENGTH (audio_buffer s)"
    using assms backup_audio_loop_iteration_ready [of s pyin]
    by (simp_all add: FRAME_LENGTH_def)
  moreover have "fst (audio_loop_iteration pyin s) = Some (take FRAME_LENGTH (audio_buffer s))"
    using assms by (rule audio_loop_iteration_ready(1))
  moreover have "length (take FRAME_LENGTH (audio_buffer s)) = FRAME_LENGTH"
    using assms by simp
  moreover have "length (audio_buffer ?s') = length (audio_buffer s) - HOP_LENGTH"
    by (simp add: buf')
  ultimately show ?thesis
    using buf' next_window by (simp add: FRAME_LENGTH_def HOP_LENGTH_def)
qed

text \<open>
  An instance: 2048 numbered samples, then blocks of 500 and 524 samples between two
  passes. The second window starts at sample 1024.
\<close>

theorem framer_window_and_hop_witness:
  "FRAME_LENGTH \<le> length (audio_buffer ((init [])\<lparr>audio_buffer := map (\<lambda>n. Some (real n)) [0..<2048]\<rparr>))
   \<and> fst (audio_loop_iteration (\<lambda>w. Raised)
        ((init [])\<lparr>audio_buffer := map (\<lambda>n. Some (real n)) [0..<2048]\<rparr>)) =
      Some (map (\<lambda>n. Some (real n)) [0..<2048])
   \<and> audio_buffer (snd (audio_loop_iteration (\<lambda>w. Raised)
        ((init [])\<lparr>audio_buffer := map (\<lambda>n. Some (real n)) [0..<2048]\<rparr>))) =
      map (\<lambda>n. Some (real n)) [1024..<2048]
   \<and> fst (audio_loop_iteration (\<lambda>w. Raised)
        (snd (run exact_ops (\<lambda>w. Raised) (map Callback [replicate 500 (Some 1), replicate 524 (Some 2)])
          (snd (audio_loop_iteration (\<lambda>w. Raised)
            ((init [])\<lparr>audio_buffer := map (\<lambda>n. Some (real n)) [0..<2048]\<rparr>)))))) =
      Some (map (\<lambda>n. Some (real n)) [1024..<2048] @ replicate 500 (Some 10) @ replicate 524 (Some 20))"
proof -
  let ?s = "(init [])\<lparr>audio_buffer := map (\<lambda>n. Some (real n)) [0..<2048]\<rparr>"
  have h: "FRAME_LENGTH \<le> length (audio_buffer ?s)"
    by (simp add: FRAME_LENGTH_def CHUNK_def)
  have g: "concat (map (gained exact_ops) [replicate 500 (Some 1), replicate 524 (Some 2)]) =
      replicate 500 (Some 10) @ replicate 524 (Some 20)"
    by (simp add: gained_def GAIN_MULTIPLIER_def exact_ops_def)
  from framer_window_and_hop [OF h, where pyin = "\<lambda>w. Raised" and fl = exact_ops
      and blocks = "[replicate 500 (Some 1), replicate 524 (Some 2)]"]
  show ?thesis
    using h unfolding g
    by (simp add: FRAME_LENGTH_def HOP_LENGTH_def CHUNK_def BUFFER_MAXLEN_def take_map drop_map
        del: upt_rec_numeral)
qed

text \<open>
  As stated the property fails on the backup variant: of 3072 numbered samples the pass
  analyses samples 0 to 2047 and leaves samples 2048 to 3071, where a discard of
  \<open>HOP_LENGTH\<close> would leave samples 1024 to 3071.
\<close>

theorem backup_discards_full_frame:
  "fst (backup_audio_loop_iteration (\<lambda>w. Raised)
      ((init [])\<lparr>audio_buffer := map (\<lambda>n. Some (real n)) [0..<3072]\<rparr>)) =
     Some (map (\<lambda>n. Some (real n)) [0..<2048])
   \<and> audio_buffer (snd (backup_audio_loop_iteration (\<lambda>w. Raised)
      ((init [])\<lparr>audio_buffer := map (\<lambda>n. Some (real n)) [0..<3072]\<rparr>))) =
     map (\<lambda>n. Some (real n)) [2048..<3072]
   \<and> drop HOP_LENGTH (audio_buffer ((init [])\<lparr>audio_buffer := map (\<lambda>n. Some (real n)) [0..<3072]\<rparr>)) =
     map (\<lambda>n. Some (real n)) [1024..<3072]
   \<and> length (audio_buffer (snd (backup_audio_loop_iteration (\<lambda>w. Raised)
      ((init [])\<lparr>audio_buffer := map (\<lambda>n. Some (real n)) [0..<3072]\<rparr>)))) \<noteq>
     length (audio_buffer ((init [])\<lparr>audio_buffer := map (\<lambda>n. Some (real n)) [0..<3072]\<rparr>)) - HOP_LENGTH"
proof -
  let ?s = "(init [])\<lparr>audio_buffer := map (\<lambda>n. Some (real n)) [0..<3072]\<rparr>"
  have h: "CHUNK * 2 \<le> length (audio_buffer ?s)"
    by (simp add: CHUNK_def)
  show ?thesis
    using backup_audio_loop_iteration_ready [OF h, of "\<lambda>w. Raised"]
    by (simp add: HOP_LENGTH_def CHUNK_def take_map drop_map del: upt_rec_numeral)
qed

text \<open>
  C2 (as amended). When \<open>pyin\<close> returns arrays of equal length and at least one
  estimate survives the filter "voicing probability above 0.5", the clean variant
  aggregates the survivors by their median (at least half of them are at most it, at
  least half are at least it) and publishes it as \<open>current_f0\<close> when it lies in the band
  from 75 to 1200 Hz (it reports unvoiced otherwise). The backup variant
  aggregates the survivors by their mean, under the same band check.
\<close>

theorem aggregate_median_clean_mean_backup:
  assumes "pyin segment = Returned f0 voiced_probs"
    and "length voiced_probs = length f0"
    and "survivors f0 voiced_probs \<noteq> []"
  shows "\<exists>m a. np_median (survivors f0 voiced_probs) = Some m
      \<and> analyze_audio_segment pyin segment s =
          Inr (if 75 \<le> m \<and> m \<le> 1200 then publish 10 m s else unvoiced s)
      \<and> current_f0 (publish 10 m s) = m
      \<and> length (survivors f0 voiced_probs) \<le>
          2 * length (filter (\<lambda>x. x \<le> m) (survivors f0 voiced_probs))
      \<and> length (survivors f0 voiced_probs) \<le>
          2 * length (filter (\<lambda>x. m \<le> x) (survivors f0 voiced_probs))
      \<and> np_mean (survivors f0 voiced_probs) = Some a
      \<and> backup_analyze_audio_segment pyin segment s =
          Inr (if 75 \<le> a \<and> a \<le> 1200 then publish (167 / 10) a s else unvoiced s)
      \<and> current_f0 (publish (167 / 10) a s) = a"
proof -
  obtain m where m: "np_median (survivors f0 voiced_probs) = Some m"
    using assms(3) np_median_None [of "survivors f0 voiced_probs"] by (cases "np_median (survivors f0 voiced_probs)") auto
  obtain a where a: "np_mean (survivors f0 voiced_probs) = Some a"
    using assms(3) by (simp add: np_mean_def)
  have "analyze_audio_segment pyin segment s =
      Inr (if 75 \<le> m \<and> m \<le> 1200 then publish 10 m s else unvoiced s)"
    using analyze_body_survivors [OF assms(2), of s] m assms(1)
    by (simp add: analyze_audio_segment_def)
  moreover have "backup_analyze_audio_segment pyin segment s =
      Inr (if 75 \<le> a \<and> a \<le> 1200 then publish (167 / 10) a s else unvoiced s)"
    using backup_analyze_body_survivors [OF assms(2,3), of s] a assms(1)
    by (simp add: backup_analyze_audio_segment_def)
  ultimately show ?thesis
    using m a np_median_halves [OF m] by (simp add: current_f0_publish)
qed

text \<open>
  An instance: the estimates 100, 100 and 400 Hz, all with probability 0.9. The clean
  variant publishes the median 100 Hz, the backup variant the mean 200 Hz.
\<close>

theorem aggregate_median_clean_mean_backup_witness:
  "length [Some (9 / 10), Some (9 / 10), Some (9 / 10 :: real)] = length [Some 100, Some 100, Some (400 :: real)]
   \<and> survivors [Some 100, Some 100, Some 400] [Some (9 / 10), Some (9 / 10), Some (9 / 10)] = [100, 100, 400]
   \<and> np_median [100, 100, 400] = Some 100
   \<and> analyze_audio_segment (\<lambda>w. Returned [Some 100, Some 100, Some 400] [Some (9 / 10), Some (9 / 10), Some (9 / 10)]) [] (init []) =
       Inr (publish 10 100 (init []))
   \<and> np_mean [100, 100, 400] = Some 200
   \<and> backup_analyze_audio_segment (\<lambda>w. Returned [Some 100, Some 100, Some 400] [Some (9 / 10), Some (9 / 10), Some (9 / 10)]) [] (init []) =
       Inr (publish (167 / 10) 200 (init []))"
proof -
  let ?f0 = "[Some 100, Some 100, Some (400 :: real)]"
  let ?p = "[Some (9 / 10), Some (9 / 10), Some (9 / 10 :: real)]"
  have sv: "survivors ?f0 ?p = [100, 100, 400]"
    by (simp add: survivors_def not_nan_def gt_half_def)
  have md: "np_median [100, 100, 400] = Some 100"
    by (simp add: np_median_def Let_def)
  have mn: "np_mean [100, 100, 400] = Some 200"
    by (simp add: np_mean_def)
  have h1: "(\<lambda>w. Returned ?f0 ?p) [] = Returned ?f0 ?p" by simp
  have h2: "length ?p = length ?f0" by simp
  have h3: "survivors ?f0 ?p \<noteq> []" by (simp add: sv)
  from aggregate_median_clean_mean_backup [of "\<lambda>w. Returned ?f0 ?p" "[]" ?f0 ?p "init []", OF h1 h2 h3]
  show ?thesis
    unfolding sv md mn by simp
qed

text \<open>
  As stated the property fails on the backup variant, at the same input and an empty note
  table: the survivors' median is 100 Hz and the published frequency is 200 Hz.
\<close>

theorem backup_reports_mean:
  "survivors [Some 100, Some 100, Some 400] [Some (9 / 10), Some (9 / 10), Some (9 / 10)] = [100, 100, 400]
   \<and> np_median [100, 100, 400] = Some 100
   \<and> backup_analyze_audio_segment
        (\<lambda>w. Returned [Some 100, Some 100, Some 400] [Some (9 / 10), Some (9 / 10), Some (9 / 10)])
        [] (init []) =
       Inr ((init [])\<lparr>current_f0 := 200\<rparr>)"
  by (simp add: survivors_def not_nan_def gt_half_def np_median_def np_mean_def Let_def
      backup_analyze_audio_segment_def backup_analyze_body_def backup_avg_def mask_index_def
      publish_def frequency_to_note_def init_def)

text \<open>
  C3. For every sequence of pushed blocks the audio buffer never holds more than its
  capacity of \<open>CHUNK * 10\<close> samples: the bound survives every schedule of callbacks and
  loop passes. An overflowing push evicts the oldest samples first and keeps the order
  of the others: after a callback, and after any sequence of callbacks, the buffer is
  the old content followed by the (gain-multiplied) pushed samples, cut at the front
  down to the capacity. From the start of a session, where the buffer is cleared, the
  buffer after any sequence of blocks holds the newest samples of the stream, at most
  \<open>CHUNK * 10\<close> of them, in their order.
\<close>

theorem ring_buffer_bounded_fifo:
  assumes "length (audio_buffer s) \<le> BUFFER_MAXLEN"
  shows "BUFFER_MAXLEN = CHUNK * 10
    \<and> length (audio_buffer (snd (run fl pyin evs s))) \<le> BUFFER_MAXLEN
    \<and> audio_buffer (audio_callback fl indata s) =
        drop (length (audio_buffer s @ gained fl indata) - BUFFER_MAXLEN)
          (audio_buffer s @ gained fl indata)
    \<and> audio_buffer (snd (run fl pyin (map Callback blocks) s)) =
        drop (length (audio_buffer s @ concat (map (gained fl) blocks)) - BUFFER_MAXLEN)
          (audio_buffer s @ concat (map (gained fl) blocks))
    \<and> length (audio_buffer (snd (run fl pyin evs (start_analysis s)))) \<le> BUFFER_MAXLEN
    \<and> (\<not> is_running s' \<longrightarrow>
        length (audio_buffer (snd (run fl pyin evs (start_analysis s')))) \<le> BUFFER_MAXLEN
        \<and> audio_buffer (snd (run fl pyin (map Callback blocks) (start_analysis s'))) =
            drop (length (concat (map (gained fl) blocks)) - BUFFER_MAXLEN)
              (concat (map (gained fl) blocks)))"
proof -
  have "audio_buffer (audio_callback fl indata s) =
      drop (length (audio_buffer s @ gained fl indata) - BUFFER_MAXLEN)
        (audio_buffer s @ gained fl indata)"
    using assms by (simp add: audio_buffer_callback deque_extend_drop)
  moreover have "length (audio_buffer (start_analysis s)) \<le> BUFFER_MAXLEN"
    using assms by (simp add: start_analysis_def)
  then have "length (audio_buffer (snd (run fl pyin evs (start_analysis s)))) \<le> BUFFER_MAXLEN"
    by (rule length_buffer_run)
  moreover have "length (audio_buffer (snd (run fl pyin evs (start_analysis s')))) \<le> BUFFER_MAXLEN
        \<and> audio_buffer (snd (run fl pyin (map Callback blocks) (start_analysis s'))) =
            drop (length (concat (map (gained fl) blocks)) - BUFFER_MAXLEN)
              (concat (map (gained fl) blocks))"
    if "\<not> is_running s'"
  proof -
    have start: "length (audio_buffer (start_analysis s')) \<le> BUFFER_MAXLEN"
      "audio_buffer (start_analysis s') = []"
      using that by (simp_all add: start_analysis_def)
    show ?thesis
      using length_buffer_run [OF start(1), of fl pyin evs]
        buffer_run_callbacks [OF start(1), of fl pyin blocks]
      by (simp add: start(2))
  qed
  ultimately show ?thesis
    using assms length_buffer_run [of s fl pyin evs] buffer_run_callbacks [of s fl pyin blocks]
    by (simp add: BUFFER_MAXLEN_def)
qed

text \<open>
  An instance with an overflow: a full buffer of 10240 zeros receives a block of two
  samples; the two oldest zeros go and the new samples stand last. The same from a fresh
  start, when a block of 10240 zeros and a block of two samples are pushed.
\<close>

theorem ring_buffer_bounded_fifo_witness:
  "length (audio_buffer ((init [])\<lparr>audio_buffer := replicate 10240 (Some 0)\<rparr>)) \<le> BUFFER_MAXLEN
   \<and> length (audio_buffer (snd (run exact_ops (\<lambda>w. Raised) [Callback [Some 1], Iteration]
        ((init [])\<lparr>audio_buffer := replicate 10240 (Some 0)\<rparr>)))) \<le> BUFFER_MAXLEN
   \<and> audio_buffer (audio_callback exact_ops [Some 1, Some 2]
        ((init [])\<lparr>audio_buffer := replicate 10240 (Some 0)\<rparr>)) =
       replicate 10238 (Some 0) @ [Some 10, Some 20]
   \<and> \<not> is_running (init [])
   \<and> audio_buffer (snd (run exact_ops (\<lambda>w. Raised)
        (map Callback [replicate 10240 (Some 0), [Some 1, Some 2]])
        (start_analysis (init [])))) =
       replicate 10238 (Some 0) @ [Some 10, Some 20]"
proof -
  let ?s = "(init [])\<lparr>audio_buffer := replicate 10240 (Some 0)\<rparr>"
  have h: "length (audio_buffer ?s) \<le> BUFFER_MAXLEN"
    by (simp add: BUFFER_MAXLEN_def CHUNK_def)
  have idle: "\<not> is_running (init [])"
    by (simp add: init_def)
  have g: "gained exact_ops [Some 1, Some 2] = [Some 10, Some 20]"
    "gained exact_ops (replicate 10240 (Some 0)) = replicate 10240 (Some 0)"
    by (simp_all add: gained_def GAIN_MULTIPLIER_def exact_ops_def)
  from ring_buffer_bounded_fifo [OF h, where fl = exact_ops and pyin = "\<lambda>w. Raised"
      and evs = "[Callback [Some 1], Iteration]" and indata = "[Some 1, Some 2]"
      and blocks = "[replicate 10240 (Some 0), [Some 1, Some 2]]" and s' = "init []"]
  show ?thesis
    using h idle by (simp add: g BUFFER_MAXLEN_def CHUNK_def)
qed

text \<open>
  C4. The analysis of a window never lets an exception out, whatever the window holds
  and whatever \<open>pyin\<close> does with it: in both variants \<open>_analyze_audio_segment\<close> returns
  normally. When \<open>pyin\<close> raises, or anything else in the body does, the handler
  publishes the unvoiced result (frequency 0, note \<open>N/A\<close>, confidence 0). The loop goes
  on: a pass leaves \<open>is_running\<close> as it was, and two passes over a buffer that holds
  enough samples analyse two windows, whatever happened in the first.
\<close>

theorem analysis_never_raises:
  "(\<exists>s'. analyze_audio_segment pyin segment s = Inr s')
   \<and> (\<exists>s'. backup_analyze_audio_segment pyin segment s = Inr s')
   \<and> (pyin segment = Raised \<longrightarrow>
        analyze_body (pyin segment) s = Inl PitchError
        \<and> analyze_audio_segment pyin segment s = Inr (unvoiced s)
        \<and> backup_analyze_body (pyin segment) s = Inl PitchError
        \<and> backup_analyze_audio_segment pyin segment s = Inr (unvoiced s))
   \<and> (\<forall>e. analyze_body (pyin segment) s = Inl e \<longrightarrow>
        analyze_audio_segment pyin segment s = Inr (unvoiced s))
   \<and> (\<forall>e. backup_analyze_body (pyin segment) s = Inl e \<longrightarrow>
        backup_analyze_audio_segment pyin segment s = Inr (unvoiced s))
   \<and> current_f0 (unvoiced s) = 0 \<and> current_note (unvoiced s) = ''N/A''
   \<and> current_japanese_note (unvoiced s) = ''N/A'' \<and> note_confidence (unvoiced s) = 0
   \<and> is_running (unvoiced s) = is_running s
   \<and> is_running (snd (audio_loop_iteration pyin s)) = is_running s
   \<and> is_running (snd (backup_audio_loop_iteration pyin s)) = is_running s
   \<and> (is_running s \<and> FRAME_LENGTH + HOP_LENGTH \<le> length (audio_buffer s) \<longrightarrow>
        fst (run fl pyin [Iteration, Iteration] s) =
          [take FRAME_LENGTH (audio_buffer s), take FRAME_LENGTH (drop HOP_LENGTH (audio_buffer s))])"
proof -
  have a: "\<exists>s'. analyze_audio_segment pyin segment s = Inr s'"
    using analyze_audio_segment_cases [of pyin segment s] by blast
  have b: "\<exists>s'. backup_analyze_audio_segment pyin segment s = Inr s'"
    using backup_analyze_audio_segment_cases [of pyin segment s] by blast
  have c: "pyin segment = Raised \<longrightarrow>
        analyze_body (pyin segment) s = Inl PitchError
        \<and> analyze_audio_segment pyin segment s = Inr (unvoiced s)
        \<and> backup_analyze_body (pyin segment) s = Inl PitchError
        \<and> backup_analyze_audio_segment pyin segment s = Inr (unvoiced s)"
    by (simp add: analyze_body_def analyze_audio_segment_def backup_analyze_body_def
        backup_analyze_audio_segment_def)
  have d: "\<forall>e. analyze_body (pyin segment) s = Inl e \<longrightarrow>
        analyze_audio_segment pyin segment s = Inr (unvoiced s)"
    by (simp add: analyze_audio_segment_def)
  have e: "\<forall>e. backup_analyze_body (pyin segment) s = Inl e \<longrightarrow>
        backup_analyze_audio_segment pyin segment s = Inr (unvoiced s)"
    by (simp add: backup_analyze_audio_segment_def)
  have f: "current_f0 (unvoiced s) = 0 \<and> current_note (unvoiced s) = ''N/A''
      \<and> current_japanese_note (unvoiced s) = ''N/A'' \<and> note_confidence (unvoiced s) = 0
      \<and> is_running (unvoiced s) = is_running s"
    by (simp add: unvoiced_def)
  have g: "fst (run fl pyin [Iteration, Iteration] s) =
          [take FRAME_LENGTH (audio_buffer s), take FRAME_LENGTH (drop HOP_LENGTH (audio_buffer s))]"
    if run: "is_running s" and len: "FRAME_LENGTH + HOP_LENGTH \<le> length (audio_buffer s)"
  proof -
    let ?s' = "snd (audio_loop_iteration pyin s)"
    have l1: "FRAME_LENGTH \<le> length (audio_buffer s)"
      using len by simp
    have w1: "fst (audio_loop_iteration pyin s) = Some (take FRAME_LENGTH (audio_buffer s))"
      and b1: "audio_buffer ?s' = drop HOP_LENGTH (audio_buffer s)"
      using audio_loop_iteration_ready [OF l1, of pyin] by (simp_all add: HOP_LENGTH_def)
    have r1: "is_running ?s'"
      using run by (simp add: is_running_iteration)
    have l2: "FRAME_LENGTH \<le> length (audio_buffer ?s')"
      using len by (simp add: b1)
    have w2: "fst (audio_loop_iteration pyin ?s') = Some (take FRAME_LENGTH (drop HOP_LENGTH (audio_buffer s)))"
      using audio_loop_iteration_ready(1) [OF l2, of pyin] by (simp add: b1)
    show ?thesis
      using run r1 w1 w2
      by (simp add: case_prod_beta)
  qed
  from a b c d e f g show ?thesis
    by (simp add: is_running_iteration backup_is_running_iteration)
qed

text \<open>
  An instance: a buffer of 3072 NaN samples and a \<open>pyin\<close> that always raises. In both
  variants the state that showed 440 Hz is reset to unvoiced and \<open>is_running\<close> stays set;
  two passes of the clean loop analyse two windows.
\<close>

theorem analysis_never_raises_witness:
  "analyze_audio_segment (\<lambda>w. Raised) (replicate 2048 None)
      ((init default_note_frequencies)\<lparr>is_running := True, current_f0 := 440,
         audio_buffer := replicate 3072 None\<rparr>) =
     Inr ((init default_note_frequencies)\<lparr>is_running := True,
         audio_buffer := replicate 3072 None\<rparr>)
   \<and> backup_analyze_audio_segment (\<lambda>w. Raised) (replicate 2048 None)
      ((init default_note_frequencies)\<lparr>is_running := True, current_f0 := 440,
         audio_buffer := replicate 3072 None\<rparr>) =
     Inr ((init default_note_frequencies)\<lparr>is_running := True,
         audio_buffer := replicate 3072 None\<rparr>)
   \<and> is_running (snd (audio_loop_iteration (\<lambda>w. Raised)
      ((init default_note_frequencies)\<lparr>is_running := True, current_f0 := 440,
         audio_buffer := replicate 3072 None\<rparr>)))
   \<and> is_running (snd (backup_audio_loop_iteration (\<lambda>w. Raised)
      ((init default_note_frequencies)\<lparr>is_running := True, current_f0 := 440,
         audio_buffer := replicate 3072 None\<rparr>)))
   \<and> FRAME_LENGTH + HOP_LENGTH \<le> length (audio_buffer
      ((init default_note_frequencies)\<lparr>is_running := True, current_f0 := 440,
         audio_buffer := replicate 3072 None\<rparr>))
   \<and> fst (run exact_ops (\<lambda>w. Raised) [Iteration, Iteration]
      ((init default_note_frequencies)\<lparr>is_running := True, current_f0 := 440,
         audio_buffer := replicate 3072 None\<rparr>)) =
     [replicate 2048 None, replicate 2048 None]"
proof -
  let ?s = "(init default_note_frequencies)\<lparr>is_running := True, current_f0 := 440,
         audio_buffer := replicate 3072 None\<rparr>"
  have u: "unvoiced ?s = (init default_note_frequencies)\<lparr>is_running := True,
         audio_buffer := replicate 3072 None\<rparr>"
    by (simp add: unvoiced_def init_def)
  have r: "is_running ?s"
    by simp
  have l: "FRAME_LENGTH + HOP_LENGTH \<le> length (audio_buffer ?s)"
    by (simp add: FRAME_LENGTH_def HOP_LENGTH_def CHUNK_def)
  have t: "take FRAME_LENGTH (audio_buffer ?s) = replicate 2048 None"
    "take FRAME_LENGTH (drop HOP_LENGTH (audio_buffer ?s)) = replicate 2048 None"
    by (simp_all add: FRAME_LENGTH_def HOP_LENGTH_def CHUNK_def)
  from analysis_never_raises [where pyin = "\<lambda>w. Raised" and segment = "replicate 2048 None"
      and s = ?s and fl = exact_ops]
  show ?thesis
    using r l unfolding u t by simp
qed

text \<open>
  C5. In the clean variant, when no estimate survives the filter "voicing probability
  above 0.5", or the median of the survivors lies outside the band from 75 to 1200 Hz,
  the analysis reports unvoiced: \<open>current_f0\<close> is 0, both note names are \<open>N/A\<close> and the
  confidence is 0.
\<close>

theorem unvoiced_when_no_survivor_or_out_of_band:
  assumes "pyin segment = Returned f0 voiced_probs"
    and "survivors f0 voiced_probs = []
         \<or> (\<exists>m. np_median (survivors f0 voiced_probs) = Some m \<and> (m < 75 \<or> 1200 < m))"
  shows "analyze_audio_segment pyin segment s = Inr (unvoiced s)
    \<and> current_f0 (unvoiced s) = 0
    \<and> current_note (unvoiced s) = ''N/A''
    \<and> current_japanese_note (unvoiced s) = ''N/A''
    \<and> note_confidence (unvoiced s) = 0"
proof -
  from assms(2) have "np_median (survivors f0 voiced_probs) = None
      \<or> (\<exists>m. np_median (survivors f0 voiced_probs) = Some m \<and> \<not> (75 \<le> m \<and> m \<le> 1200))"
    by (auto simp: np_median_None)
  with assms(1) have "analyze_audio_segment pyin segment s = Inr (unvoiced s)"
    by (rule analyze_audio_segment_unvoiced_when)
  then show ?thesis
    by (simp add: unvoiced_def)
qed

text \<open>
  Two instances, from a state that shows A4: survivors 0 and 100 Hz with the median 50 Hz
  below the band; and a single estimate whose probability is exactly 0.5, which does not
  survive.
\<close>

theorem unvoiced_when_no_survivor_or_out_of_band_witness:
  "survivors [Some 0, Some 100, Some 0] [Some (3 / 5), Some (9 / 10), Some (1 / 10)] = [0, 100]
   \<and> np_median [0, 100] = Some 50
   \<and> analyze_audio_segment
        (\<lambda>w. Returned [Some 0, Some 100, Some 0] [Some (3 / 5), Some (9 / 10), Some (1 / 10)]) []
        ((init default_note_frequencies)\<lparr>current_f0 := 440, current_note := ''A4'', note_confidence := 100\<rparr>) =
       Inr (init default_note_frequencies)
   \<and> survivors [Some 440] [Some (1 / 2)] = []
   \<and> analyze_audio_segment (\<lambda>w. Returned [Some 440] [Some (1 / 2)]) []
        ((init default_note_frequencies)\<lparr>current_f0 := 440, current_note := ''A4'', note_confidence := 100\<rparr>) =
       Inr (init default_note_frequencies)"
proof -
  let ?s = "(init default_note_frequencies)\<lparr>current_f0 := 440, current_note := ''A4'', note_confidence := 100\<rparr>"
  let ?f0 = "[Some 0, Some 100, Some (0 :: real)]"
  let ?p = "[Some (3 / 5), Some (9 / 10), Some (1 / 10 :: real)]"
  have sv: "survivors ?f0 ?p = [0, 100]"
    by (simp add: survivors_def not_nan_def gt_half_def)
  have md: "np_median [0, 100] = Some 50"
    by (simp add: np_median_def Let_def)
  have sv2: "survivors [Some 440] [Some (1 / 2)] = []"
    by (simp add: survivors_def not_nan_def gt_half_def)
  have u: "unvoiced ?s = init default_note_frequencies"
    by (simp add: unvoiced_def init_def)
  have h1: "(\<lambda>w. Returned ?f0 ?p) [] = Returned ?f0 ?p" by simp
  have h2: "survivors ?f0 ?p = []
      \<or> (\<exists>m. np_median (survivors ?f0 ?p) = Some m \<and> (m < 75 \<or> 1200 < m))"
    by (simp add: sv md)
  have k1: "(\<lambda>w. Returned [Some 440] [Some (1 / 2)]) [] = Returned [Some 440] [Some (1 / 2)]" by simp
  have k2: "survivors [Some 440] [Some (1 / 2)] = []
      \<or> (\<exists>m. np_median (survivors [Some 440] [Some (1 / 2)]) = Some m \<and> (m < 75 \<or> 1200 < m))"
    by (simp add: sv2)
  from unvoiced_when_no_survivor_or_out_of_band
      [of "\<lambda>w. Returned ?f0 ?p" "[]" ?f0 ?p ?s, OF h1 h2]
    unvoiced_when_no_survivor_or_out_of_band
      [of "\<lambda>w. Returned [Some 440] [Some (1 / 2)]" "[]" "[Some 440]" "[Some (1 / 2)]" ?s, OF k1 k2]
  show ?thesis
    using sv md sv2 u by simp
qed

text \<open>
  C6. For every frequency \<open>f > 0\<close> and every non-empty note table, \<open>frequency_to_note\<close>
  returns the names and frequency of an entry whose distance \<open>\<bar>table_freq - f\<bar>\<close> is the
  least in the table, and every entry before it in iteration order is strictly farther:
  of several entries at the least distance the first one is kept.
\<close>

theorem frequency_to_note_first_minimum:
  assumes "0 < f" and "table \<noteq> []"
  shows "\<exists>i<length table.
      frequency_to_note f table =
        (western (snd (table ! i)), japanese (snd (table ! i)), frequency (snd (table ! i)))
      \<and> (\<forall>j<length table. \<bar>frequency (snd (table ! i)) - f\<bar> \<le> \<bar>frequency (snd (table ! j)) - f\<bar>)
      \<and> (\<forall>j<i. \<bar>frequency (snd (table ! i)) - f\<bar> < \<bar>frequency (snd (table ! j)) - f\<bar>)"
proof -
  from note_loop_first_min [OF assms(2), of f "''N/A''" "''N/A''" 0]
  obtain i where "i < length table"
    and "note_loop f table (None, ''N/A'', ''N/A'', 0) =
        (Some \<bar>frequency (snd (table ! i)) - f\<bar>, western (snd (table ! i)),
         japanese (snd (table ! i)), frequency (snd (table ! i)))"
    and "\<forall>j<length table. \<bar>frequency (snd (table ! i)) - f\<bar> \<le> \<bar>frequency (snd (table ! j)) - f\<bar>"
    and "\<forall>j<i. \<bar>frequency (snd (table ! i)) - f\<bar> < \<bar>frequency (snd (table ! j)) - f\<bar>"
    by blast
  with assms(1) show ?thesis
    by (intro exI [of _ i]) (simp add: frequency_to_note_def)
qed

text \<open>
  An instance with a tie: 464 Hz is 24 Hz from both A4 and B4 of this table; A4, which
  comes first, is returned.
\<close>

theorem frequency_to_note_first_minimum_witness:
  "(0::real) < 464 \<and> tie_table \<noteq> []
   \<and> frequency_to_note 464 tie_table = (''A4'', ''ra'', 440)
   \<and> (\<exists>i<length tie_table.
        frequency_to_note 464 tie_table =
          (western (snd (tie_table ! i)), japanese (snd (tie_table ! i)),
           frequency (snd (tie_table ! i))))"
proof -
  have pos: "(0::real) < 464" by simp
  have ne: "tie_table \<noteq> []" by (simp add: tie_table_def)
  have val: "frequency_to_note 464 tie_table = (''A4'', ''ra'', 440)"
    by (simp add: frequency_to_note_def tie_table_def Let_def)
  from frequency_to_note_first_minimum [OF pos ne]
  have "\<exists>i<length tie_table.
      frequency_to_note 464 tie_table =
        (western (snd (tie_table ! i)), japanese (snd (tie_table ! i)),
         frequency (snd (tie_table ! i)))"
    by blast
  with pos ne val show ?thesis by blast
qed

text \<open>
  C7. For a detected frequency \<open>d\<close> whose closest table frequency \<open>c\<close> is positive, the note
  confidence is \<open>max(0, 100 - (\<bar>d - c\<bar> / c) * 100 * K)\<close> cut to the range from 0 to 100,
  with \<open>K = 10\<close> in the clean variant and \<open>K = 16.7\<close> in the backup. It is exactly 100 when
  \<open>d = c\<close>; for fixed \<open>c\<close> it does not increase when the distance \<open>\<bar>d - c\<bar>\<close> grows, and it
  decreases strictly as long as it is above 0.
\<close>

theorem note_confidence_formula:
  assumes "0 < c" and "0 \<le> K"
  shows "confidence K d c = min 100 (max 0 (100 - (\<bar>d - c\<bar> / c) * 100 * K))
    \<and> 0 \<le> confidence K d c \<and> confidence K d c \<le> 100
    \<and> confidence K c c = 100
    \<and> (\<bar>d1 - c\<bar> \<le> \<bar>d2 - c\<bar> \<longrightarrow> confidence K d2 c \<le> confidence K d1 c)
    \<and> (0 < K \<and> \<bar>d1 - c\<bar> < \<bar>d2 - c\<bar> \<and> 0 < confidence K d2 c \<longrightarrow>
          confidence K d2 c < confidence K d1 c)
    \<and> (frequency_to_note d (note_data s) = (w, j, c) \<longrightarrow>
          note_confidence (publish K d s) = confidence K d c)
    \<and> (pyin segment = Returned f0 voiced_probs \<and> length voiced_probs = length f0
        \<and> np_median (survivors f0 voiced_probs) = Some d \<and> 75 \<le> d \<and> d \<le> 1200
        \<and> frequency_to_note d (note_data s) = (w, j, c) \<longrightarrow>
          (\<exists>s'. analyze_audio_segment pyin segment s = Inr s'
              \<and> current_f0 s' = d \<and> note_confidence s' = confidence 10 d c))
    \<and> (pyin segment = Returned f0 voiced_probs \<and> length voiced_probs = length f0
        \<and> survivors f0 voiced_probs \<noteq> []
        \<and> np_mean (survivors f0 voiced_probs) = Some d \<and> 75 \<le> d \<and> d \<le> 1200
        \<and> frequency_to_note d (note_data s) = (w, j, c) \<longrightarrow>
          (\<exists>s'. backup_analyze_audio_segment pyin segment s = Inr s'
              \<and> current_f0 s' = d \<and> note_confidence s' = confidence (167 / 10) d c))"
proof -
  have mono: "\<bar>d1 - c\<bar> \<le> \<bar>d2 - c\<bar> \<longrightarrow> confidence K d2 c \<le> confidence K d1 c"
    using confidence_mono [OF assms] by blast
  have strict: "0 < K \<and> \<bar>d1 - c\<bar> < \<bar>d2 - c\<bar> \<and> 0 < confidence K d2 c \<longrightarrow>
          confidence K d2 c < confidence K d1 c"
    using confidence_strict [OF assms(1)] by blast
  have pub: "note_confidence (publish K' d s) = confidence K' d c"
    if "frequency_to_note d (note_data s) = (w, j, c)" for K'
    using that assms(1) by (simp add: note_confidence_publish)
  have clean: "\<exists>s'. analyze_audio_segment pyin segment s = Inr s'
              \<and> current_f0 s' = d \<and> note_confidence s' = confidence 10 d c"
    if "pyin segment = Returned f0 voiced_probs" "length voiced_probs = length f0"
      "np_median (survivors f0 voiced_probs) = Some d" "75 \<le> d" "d \<le> 1200"
      "frequency_to_note d (note_data s) = (w, j, c)"
  proof -
    have "analyze_audio_segment pyin segment s = Inr (publish 10 d s)"
      using analyze_body_survivors [OF that(2), of s] that(1,3,4,5)
      by (simp add: analyze_audio_segment_def)
    then show ?thesis
      using pub [OF that(6)] by (simp add: current_f0_publish)
  qed
  have backup: "\<exists>s'. backup_analyze_audio_segment pyin segment s = Inr s'
              \<and> current_f0 s' = d \<and> note_confidence s' = confidence (167 / 10) d c"
    if "pyin segment = Returned f0 voiced_probs" "length voiced_probs = length f0"
      "survivors f0 voiced_probs \<noteq> []"
      "np_mean (survivors f0 voiced_probs) = Some d" "75 \<le> d" "d \<le> 1200"
      "frequency_to_note d (note_data s) = (w, j, c)"
  proof -
    have "backup_analyze_audio_segment pyin segment s = Inr (publish (167 / 10) d s)"
      using backup_analyze_body_survivors [OF that(2,3), of s] that(1,4,5,6)
      by (simp add: backup_analyze_audio_segment_def)
    then show ?thesis
      using pub [OF that(7)] by (simp add: current_f0_publish)
  qed
  have "confidence K d c = min 100 (max 0 (100 - (\<bar>d - c\<bar> / c) * 100 * K))"
    by (rule confidence_unfold)
  with mono strict pub clean backup show ?thesis
    using confidence_range [of K d c] confidence_exact [of K c]
    by blast
qed

text \<open>
  An instance with the default table: 440 Hz is A4 with confidence 100 in both variants;
  against 440 Hz the confidence of 462 Hz is 50 for \<open>K = 10\<close>, that of 466 Hz is smaller,
  and that of 484 Hz is 0.
\<close>

theorem note_confidence_formula_witness:
  "(0::real) < 440 \<and> (0::real) \<le> 10
   \<and> frequency_to_note 440 (note_data (init default_note_frequencies)) =
       (''A4'', [CHR 0xE3, CHR 0x83, CHR 0xA9], 440)
   \<and> confidence 10 440 440 = 100
   \<and> confidence 10 462 440 = 50
   \<and> confidence 10 466 440 < confidence 10 462 440
   \<and> confidence 10 484 440 = 0
   \<and> (\<exists>s'. analyze_audio_segment
          (\<lambda>w. Returned [Some 440, Some 440, Some 440] [Some (9 / 10), Some (9 / 10), Some (9 / 10)])
          [] (init default_note_frequencies) = Inr s'
        \<and> current_f0 s' = 440 \<and> note_confidence s' = 100)
   \<and> (\<exists>s'. backup_analyze_audio_segment
          (\<lambda>w. Returned [Some 440, Some 440, Some 440] [Some (9 / 10), Some (9 / 10), Some (9 / 10)])
          [] (init default_note_frequencies) = Inr s'
        \<and> current_f0 s' = 440 \<and> note_confidence s' = 100)"
proof -
  let ?f0 = "[Some 440, Some 440, Some (440::real)]"
  let ?p = "[Some (9 / 10), Some (9 / 10), Some (9 / 10 :: real)]"
  let ?pyin = "\<lambda>w::sample list. Returned ?f0 ?p"
  let ?s = "init default_note_frequencies"
  have pos: "(0::real) < 440" and K: "(0::real) \<le> 10"
    by simp_all
  have nt: "frequency_to_note 440 (note_data ?s) = (''A4'', [CHR 0xE3, CHR 0x83, CHR 0xA9], 440)"
    by (simp add: frequency_to_note_def init_def default_note_frequencies_def Let_def)
  have sv: "survivors ?f0 ?p = [440, 440, 440]"
    by (simp add: survivors_def not_nan_def gt_half_def)
  have md: "np_median (survivors ?f0 ?p) = Some 440" and mn: "np_mean (survivors ?f0 ?p) = Some 440"
    unfolding sv by (simp_all add: np_median_def np_mean_def Let_def)
  have ne: "survivors ?f0 ?p \<noteq> []"
    by (simp add: sv)
  have vals: "confidence 10 462 440 = 50" "confidence 10 484 440 = 0" "0 < confidence 10 466 440"
    by (simp_all add: confidence_def Let_def)
  have band: "75 \<le> (440::real)" "(440::real) \<le> 1200" "length ?p = length ?f0"
    "?pyin [] = Returned ?f0 ?p" "(0::real) < 10" "\<bar>462 - 440\<bar> < \<bar>466 - (440::real)\<bar>"
    by simp_all
  note inst = note_confidence_formula [OF pos K, of 440 462 466 ?s "''A4''"
      "[CHR 0xE3, CHR 0x83, CHR 0xA9]" ?pyin "[]" ?f0 ?p]
  from inst have exact: "confidence 10 440 440 = 100"
    by blast
  from inst vals(3) band have strict: "confidence 10 466 440 < confidence 10 462 440"
    by blast
  from inst nt md band have clean: "\<exists>s'. analyze_audio_segment ?pyin [] ?s = Inr s'
        \<and> current_f0 s' = 440 \<and> note_confidence s' = confidence 10 440 440"
    by blast
  from inst nt mn ne band have backup: "\<exists>s'. backup_analyze_audio_segment ?pyin [] ?s = Inr s'
        \<and> current_f0 s' = 440 \<and> note_confidence s' = confidence (167 / 10) 440 440"
    by blast
  have "confidence (167 / 10) 440 440 = 100"
    by (rule confidence_exact)
  with pos K nt exact strict vals clean backup show ?thesis
    by simp
qed

text \<open>
  C8 (as amended). For every arriving block whose computed RMS is a number (the block is
  not empty and holds no NaN), the published volume is \<open>min(100, int(rms * SCALE))\<close>, where
  \<open>rms\<close> and the product \<open>rms * SCALE\<close> are the values that the floating-point operations
  compute for the (gain-multiplied) block, whatever their rounding, and \<open>int\<close> truncates
  (the floor, the product being at least 0) instead of rounding to the nearest integer;
  it lies between 0 and 100. (A block whose RMS is NaN leaves the volume as it was. The
  second hypothesis holds of every floating-point arithmetic: a root is not negative,
  and neither is its product with a positive number.) In
  the clean variant \<open>SCALE\<close> is 100; version 0.1.0 applies no gain and has \<open>SCALE = 200\<close>, so
  that a computed product of 100 or more (an RMS of 0.5) yields 100 and a computed product
  from 20 up to 21 (an RMS of 0.1 whose product is not rounded below 20) yields 20.
\<close>

theorem volume_is_truncated_percentage:
  assumes "rms fl (gained fl indata) = Some r"
    and "0 \<le> scalar_times fl r 100"
  shows "current_volume (audio_callback fl indata s) = min 100 \<lfloor>scalar_times fl r 100\<rfloor>
    \<and> 0 \<le> current_volume (audio_callback fl indata s)
    \<and> current_volume (audio_callback fl indata s) \<le> 100
    \<and> (rms fl (gained fl indata') = None \<longrightarrow>
          current_volume (audio_callback fl indata' s) = current_volume s)
    \<and> (rms fl audio_data = Some r' \<and> 0 \<le> scalar_times fl r' 200 \<longrightarrow>
          v01_current_volume fl audio_data = Inr (min 100 \<lfloor>scalar_times fl r' 200\<rfloor>)
          \<and> 0 \<le> min 100 \<lfloor>scalar_times fl r' 200\<rfloor>)
    \<and> (rms fl audio_data = Some r' \<and> 100 \<le> scalar_times fl r' 200 \<longrightarrow>
          v01_current_volume fl audio_data = Inr 100)
    \<and> (rms fl audio_data = Some r' \<and> 20 \<le> scalar_times fl r' 200
        \<and> scalar_times fl r' 200 < 21 \<longrightarrow>
          v01_current_volume fl audio_data = Inr 20)"
proof -
  have v: "current_volume (audio_callback fl indata s) = min 100 \<lfloor>scalar_times fl r 100\<rfloor>"
    using assms by (rule callback_volume)
  have "0 \<le> \<lfloor>scalar_times fl r 100\<rfloor>"
    using assms(2) by simp
  with v have range: "0 \<le> current_volume (audio_callback fl indata s)"
      "current_volume (audio_callback fl indata s) \<le> 100"
    by simp_all
  have old: "v01_current_volume fl audio_data = Inr (min 100 \<lfloor>scalar_times fl r' 200\<rfloor>)
      \<and> 0 \<le> min 100 \<lfloor>scalar_times fl r' 200\<rfloor>"
    if "rms fl audio_data = Some r'" "0 \<le> scalar_times fl r' 200"
    using v01_volume [OF that] that(2) by simp
  have top: "v01_current_volume fl audio_data = Inr 100"
    if "rms fl audio_data = Some r'" "100 \<le> scalar_times fl r' 200"
  proof -
    have "100 \<le> \<lfloor>scalar_times fl r' 200\<rfloor>"
      using that(2) by (simp add: le_floor_iff)
    moreover have "0 \<le> scalar_times fl r' 200"
      using that(2) by simp
    ultimately show ?thesis
      using v01_volume [OF that(1)] by simp
  qed
  have twenty: "v01_current_volume fl audio_data = Inr 20"
    if "rms fl audio_data = Some r'" "20 \<le> scalar_times fl r' 200" "scalar_times fl r' 200 < 21"
  proof -
    have "\<lfloor>scalar_times fl r' 200\<rfloor> = 20"
      using that(2,3) by (simp add: floor_eq_iff)
    moreover have "0 \<le> scalar_times fl r' 200"
      using that(2) by simp
    ultimately show ?thesis
      using v01_volume [OF that(1)] by simp
  qed
  from v range old top twenty show ?thesis
    using callback_volume_nan [of fl indata' s] by blast
qed

text \<open>
  Instances with the operations without rounding, on blocks of \<open>CHUNK\<close> equal samples whose
  intermediate results are binary fractions that float32 represents: in the clean variant
  the sample 0.01953125 (RMS 0.1953125 after the gain, product 19.53125) gives the volume
  19 and the sample 0.5 gives the volume 100; a block with a NaN leaves the volume at its
  initial 0; in version 0.1.0 the sample 1 gives 100, the sample 0.1015625 (product
  20.3125) gives 20 and the sample 0.25 gives 50.
\<close>

theorem volume_is_truncated_percentage_witness:
  "rms exact_ops (gained exact_ops (replicate CHUNK (Some (5 / 256)))) = Some (25 / 128)
   \<and> (0::real) \<le> scalar_times exact_ops (25 / 128) 100
   \<and> current_volume (audio_callback exact_ops (replicate CHUNK (Some (5 / 256))) (init [])) = 19
   \<and> rms exact_ops (gained exact_ops (replicate CHUNK (Some (1 / 2)))) = Some 5
   \<and> current_volume (audio_callback exact_ops (replicate CHUNK (Some (1 / 2))) (init [])) = 100
   \<and> rms exact_ops (gained exact_ops [Some (1 / 2), None]) = None
   \<and> current_volume (audio_callback exact_ops [Some (1 / 2), None] (init [])) = 0
   \<and> v01_current_volume exact_ops (replicate CHUNK (Some 1)) = Inr 100
   \<and> v01_current_volume exact_ops (replicate CHUNK (Some (13 / 128))) = Inr 20
   \<and> v01_current_volume exact_ops (replicate CHUNK (Some (1 / 4))) = Inr 50"
proof -
  have h1: "rms exact_ops (gained exact_ops (replicate CHUNK (Some (5 / 256)))) = Some (25 / 128)"
    by (simp add: gained_exact_replicate rms_exact_replicate CHUNK_def)
  have p1: "(0::real) \<le> scalar_times exact_ops (25 / 128) 100"
    by (simp add: scalar_times_exact)
  have h2: "rms exact_ops (gained exact_ops (replicate CHUNK (Some (1 / 2)))) = Some 5"
    by (simp add: gained_exact_replicate rms_exact_replicate CHUNK_def)
  have p2: "(0::real) \<le> scalar_times exact_ops 5 100"
    by (simp add: scalar_times_exact)
  have h3: "rms exact_ops (gained exact_ops [Some (1 / 2), None]) = None"
    by (simp add: gained_def rms_def)
  have h4: "rms exact_ops (replicate CHUNK (Some 1)) = Some 1"
    and h5: "rms exact_ops (replicate CHUNK (Some (13 / 128))) = Some (13 / 128)"
    and h6: "rms exact_ops (replicate CHUNK (Some (1 / 4))) = Some (1 / 4)"
    by (simp_all add: rms_exact_replicate CHUNK_def)
  note a = volume_is_truncated_percentage [OF h1 p1, where s = "init []"
      and indata' = "[Some (1 / 2), None]" and audio_data = "replicate CHUNK (Some 1)" and r' = 1]
  note b = volume_is_truncated_percentage [OF h2 p2, where s = "init []"
      and audio_data = "replicate CHUNK (Some (13 / 128))" and r' = "13 / 128"]
  note c = volume_is_truncated_percentage [OF h2 p2, where s = "init []"
      and audio_data = "replicate CHUNK (Some (1 / 4))" and r' = "1 / 4"]
  from a h3 h4 have "current_volume (audio_callback exact_ops (replicate CHUNK (Some (5 / 256))) (init [])) = 19"
    and "current_volume (audio_callback exact_ops [Some (1 / 2), None] (init [])) = 0"
    and "v01_current_volume exact_ops (replicate CHUNK (Some 1)) = Inr 100"
    by (simp_all add: scalar_times_exact init_def)
  moreover from b h5 have "current_volume (audio_callback exact_ops (replicate CHUNK (Some (1 / 2))) (init [])) = 100"
    and "v01_current_volume exact_ops (replicate CHUNK (Some (13 / 128))) = Inr 20"
    by (simp_all add: scalar_times_exact)
  moreover from c h6 have "v01_current_volume exact_ops (replicate CHUNK (Some (1 / 4))) = Inr 50"
    by (simp add: scalar_times_exact)
  ultimately show ?thesis
    using h1 p1 h2 h3 by simp
qed

text \<open>
  The statement with \<open>round\<close> fails. A block of \<open>CHUNK\<close> samples 0.01953125 (5/256): the
  samples after the gain are 0.1953125 (25/128), their squares are 625/16384, every
  partial sum of the squares is a multiple of 625/16384 with a numerator below \<open>2 ^ 20\<close>,
  the mean is 625/16384 again, its root is 25/128 and the product with 100 is 19.53125
  (625/32). All of these are binary fractions that a float32 holds, in whatever order
  the sum is taken, so the operations without rounding are the program's on this block.
  The formula with \<open>round\<close> and \<open>SCALE = 100\<close> gives 20, and the callback publishes 19.
\<close>

theorem volume_not_rounded:
  "rms exact_ops (gained exact_ops (replicate CHUNK (Some (5 / 256)))) = Some (25 / 128)
   \<and> scalar_times exact_ops (25 / 128) 100 = 625 / 32
   \<and> current_volume (audio_callback exact_ops (replicate CHUNK (Some (5 / 256))) (init [])) = 19
   \<and> spec_volume (25 / 128) 100 = 20"
proof -
  have h1: "rms exact_ops (gained exact_ops (replicate CHUNK (Some (5 / 256)))) = Some (25 / 128)"
    by (simp add: gained_exact_replicate rms_exact_replicate CHUNK_def)
  have p1: "scalar_times exact_ops (25 / 128) 100 = 625 / 32"
    by (simp add: scalar_times_exact)
  have "current_volume (audio_callback exact_ops (replicate CHUNK (Some (5 / 256))) (init [])) = 19"
    using callback_volume [OF h1, of "init []"] by (simp add: p1)
  moreover have "spec_volume (25 / 128) 100 = 20"
    by (simp add: spec_volume_def round_def)
  ultimately show ?thesis
    using h1 p1 by simp
qed

text \<open>
  C9 (as amended). When the note table cannot be loaded, the clean variant falls back to
  an embedded table that is not empty, holds the seven natural notes C4, D4, E4, F4, G4,
  A4 and B4 of one octave, and has only positive frequencies. The backup variant falls
  back to an empty table.
\<close>

theorem fallback_table:
  "load_note_frequencies (Inl e) = default_note_frequencies
   \<and> default_note_frequencies \<noteq> []
   \<and> list_all (\<lambda>k. k \<in> fst ` set default_note_frequencies)
        [''C4'', ''D4'', ''E4'', ''F4'', ''G4'', ''A4'', ''B4'']
   \<and> list_all (\<lambda>entry. 0 < frequency (snd entry)) default_note_frequencies
   \<and> length default_note_frequencies = 7
   \<and> backup_load_note_frequencies (Inl e) = []"
  by (simp add: load_note_frequencies_def backup_load_note_frequencies_def
      default_note_frequencies_def)

text \<open>
  As stated the property fails on the backup variant: a failed load yields the empty table.
\<close>

theorem backup_fallback_is_empty:
  "backup_load_note_frequencies (Inl OSError) = []"
  by (simp add: backup_load_note_frequencies_def)

text \<open>
  C10. With the empty note table, which is what the backup variant's loader returns on
  failure, \<open>frequency_to_note\<close> returns \<open>N/A\<close> and the closest frequency 0 for every
  frequency above 0, and the guard \<open>closest_freq > 0\<close> of the caller sets the confidence
  to 0 without dividing: the backup analysis of an in-band frequency returns normally,
  publishing the frequency with note \<open>N/A\<close> and confidence 0.
\<close>

theorem empty_table_degrades_to_no_note:
  assumes "0 < f"
  shows "backup_load_note_frequencies (Inl e) = []
    \<and> frequency_to_note f [] = (''N/A'', ''N/A'', 0)
    \<and> (note_data s = [] \<longrightarrow>
          publish K f s =
            s\<lparr>current_f0 := f, current_note := ''N/A'', current_japanese_note := ''N/A'',
              note_confidence := 0\<rparr>)
    \<and> (note_data s = [] \<and> pyin segment = Returned f0 voiced_probs
        \<and> not_nan f0 \<noteq> [] \<and> backup_avg f0 voiced_probs = Inr (Some f)
        \<and> 75 \<le> f \<and> f \<le> 1200 \<longrightarrow>
          backup_analyze_audio_segment pyin segment s =
            Inr (s\<lparr>current_f0 := f, current_note := ''N/A'', current_japanese_note := ''N/A'',
              note_confidence := 0\<rparr>))"
proof -
  have n: "frequency_to_note f [] = (''N/A'', ''N/A'', 0)"
    using assms by (simp add: frequency_to_note_def)
  have p: "publish K' f s =
      s\<lparr>current_f0 := f, current_note := ''N/A'', current_japanese_note := ''N/A'',
        note_confidence := 0\<rparr>" if "note_data s = []" for K'
    using that n by (simp add: publish_def)
  have "backup_analyze_audio_segment pyin segment s =
      Inr (s\<lparr>current_f0 := f, current_note := ''N/A'', current_japanese_note := ''N/A'',
        note_confidence := 0\<rparr>)"
    if "note_data s = []" "pyin segment = Returned f0 voiced_probs" "not_nan f0 \<noteq> []"
      "backup_avg f0 voiced_probs = Inr (Some f)" "75 \<le> f" "f \<le> 1200"
    using that p [OF that(1), of "167 / 10"]
    by (simp add: backup_analyze_audio_segment_def backup_analyze_body_def)
  with n p show ?thesis
    by (simp add: backup_load_note_frequencies_def)
qed

text \<open>
  An instance: the backup variant after a failed load, given one estimate of 440 Hz with
  probability 0.9.
\<close>

theorem empty_table_degrades_to_no_note_witness:
  "(0::real) < 440
   \<and> frequency_to_note 440 (backup_load_note_frequencies (Inl OSError)) = (''N/A'', ''N/A'', 0)
   \<and> backup_analyze_audio_segment (\<lambda>w. Returned [Some 440] [Some (9 / 10)]) []
        (init (backup_load_note_frequencies (Inl OSError))) =
       Inr ((init [])\<lparr>current_f0 := 440\<rparr>)"
proof -
  let ?s = "init (backup_load_note_frequencies (Inl OSError))"
  have pos: "(0::real) < 440" by simp
  have h: "note_data ?s = [] \<and> (\<lambda>w. Returned [Some 440] [Some (9 / 10)]) [] = Returned [Some 440] [Some (9 / 10)]
        \<and> not_nan [Some 440] \<noteq> [] \<and> backup_avg [Some 440] [Some (9 / 10)] = Inr (Some 440)
        \<and> 75 \<le> (440::real) \<and> (440::real) \<le> 1200"
    by (simp add: init_def backup_load_note_frequencies_def not_nan_def backup_avg_def
        mask_index_def gt_half_def np_mean_def Let_def)
  have eq: "?s\<lparr>current_f0 := 440, current_note := ''N/A'', current_japanese_note := ''N/A'',
        note_confidence := 0\<rparr> = (init [])\<lparr>current_f0 := 440\<rparr>"
    by (simp add: init_def backup_load_note_frequencies_def)
  from empty_table_degrades_to_no_note [OF pos, of OSError ?s 10 "\<lambda>w. Returned [Some 440] [Some (9 / 10)]"
      "[]" "[Some 440]" "[Some (9 / 10)]"]
  show ?thesis
    using h eq by (simp add: backup_load_note_frequencies_def)
qed

end
